theory Spec2Isabelle
  imports Complex_Main
begin

unbundle bit_operations_syntax

section \<open>Python values and library functions used by print.py\<close>

text \<open>
  print.py is a Python 2 script. Exceptions are values: a function that can raise
  returns \<open>py_error + 'a\<close>. A \<open>while\<close> loop that may spin forever returns an
  \<open>option\<close> on top of that, \<open>None\<close> meaning that the loop never returns.
  The script has no exception of its own for a descriptor it cannot read: what fails
  is an unpacking or a conversion (\<open>ValueError\<close>) or an \<open>assert\<close>
  (\<open>AssertionError\<close>), and nothing catches either.
\<close>

datatype py_error = ValueError | AssertionError | TypeError | ZeroDivisionError

text \<open>\<open>string.lowercase\<close> and \<open>string.digits\<close> (C locale).\<close>

definition lowercase :: string where
  "lowercase = ''abcdefghijklmnopqrstuvwxyz''"

definition digits :: string where
  "digits = ''0123456789''"

text \<open>\<open>ord(c)\<close>\<close>

definition ord :: "char \<Rightarrow> int" where
  "ord c = int (of_char c)"

text \<open>
  \<open>string.split(s, sep)\<close> for a one-character separator: every occurrence of the
  separator cuts, so the result has one more element than there are separators.
\<close>

fun split :: "string \<Rightarrow> char \<Rightarrow> string list" where
  "split [] sep = [[]]"
| "split (c # cs) sep =
     (if c = sep then [] # split cs sep
      else (case split cs sep of
              [] \<Rightarrow> [[c]]
            | p # ps \<Rightarrow> (c # p) # ps))"

text \<open>
  \<open>string.atoi(s)\<close>, that is \<open>int(s, 10)\<close> of Python 2: white space around the
  number, an optional sign (Python 2 also skips white space after it), then one or
  more decimal digits and nothing else. \<open>None\<close> stands for the \<open>ValueError\<close>.
\<close>

definition isspace :: "char \<Rightarrow> bool" where
  "isspace c = (c \<in> set [CHR '' '', CHR 0x09, CHR 0x0A, CHR 0x0B, CHR 0x0C, CHR 0x0D])"

definition isdigit :: "char \<Rightarrow> bool" where
  "isdigit c = (c \<in> set digits)"

definition digit_value :: "char \<Rightarrow> int" where
  "digit_value c = ord c - ord CHR ''0''"

definition decimal_value :: "string \<Rightarrow> int" where
  "decimal_value ds = foldl (\<lambda>acc c. acc * 10 + digit_value c) 0 ds"

definition atoi :: "string \<Rightarrow> int option" where
  "atoi s =
     (let s1 = dropWhile isspace s;
          neg = (s1 \<noteq> [] \<and> hd s1 = CHR ''-'');
          s2 = (if s1 \<noteq> [] \<and> (hd s1 = CHR ''+'' \<or> hd s1 = CHR ''-'') then tl s1 else s1);
          s3 = dropWhile isspace s2;
          ds = takeWhile isdigit s3;
          rest = dropWhile isspace (dropWhile isdigit s3)
      in if ds = [] \<or> rest \<noteq> [] then None
         else Some (if neg then - decimal_value ds else decimal_value ds))"

text \<open>\<open>string.atoi(c, 16)\<close> on a one-character string.\<close>

definition atoi16 :: "char \<Rightarrow> int option" where
  "atoi16 c =
     (if c \<in> set digits then Some (ord c - ord CHR ''0'')
      else if c \<in> set ''abcdef'' then Some (ord c - ord CHR ''a'' + 10)
      else if c \<in> set ''ABCDEF'' then Some (ord c - ord CHR ''A'' + 10)
      else None)"

text \<open>\<open>str(n)\<close> and the \<open>%d\<close> conversion of an integer.\<close>

fun show_nat :: "nat \<Rightarrow> string" where
  "show_nat n =
     (if n < 10 then [char_of (48 + n)]
      else show_nat (n div 10) @ [char_of (48 + n mod 10)])"

declare show_nat.simps [simp del]

definition show_int :: "int \<Rightarrow> string" where
  "show_int i = (if i < 0 then CHR ''-'' # show_nat (nat (- i)) else show_nat (nat i))"

text \<open>\<open>xrange(a, b)\<close> and \<open>xrange(b)\<close> are \<open>[a..b - 1]\<close> and \<open>[0..b - 1]\<close>.\<close>

text \<open>
  \<open>xrange(a, b, step)\<close>: a zero step raises \<open>ValueError\<close>; a negative step counts
  down while the value stays above \<open>b\<close>.
\<close>

definition xrange_step :: "int \<Rightarrow> int \<Rightarrow> int \<Rightarrow> int list" where
  "xrange_step a b step =
     (if 0 < step then map (\<lambda>k. a + int k * step) [0..<nat ((b - a + step - 1) div step)]
      else map (\<lambda>k. a + int k * step) [0..<nat ((a - b - step - 1) div (- step))])"

definition xrange3 :: "int \<Rightarrow> int \<Rightarrow> int \<Rightarrow> py_error + int list" where
  "xrange3 a b step = (if step = 0 then Inl ValueError else Inr (xrange_step a b step))"

text \<open>Running a loop body that can raise over a list, stopping at the first exception.\<close>

fun collect :: "('a \<Rightarrow> py_error + 'b list) \<Rightarrow> 'a list \<Rightarrow> py_error + 'b list" where
  "collect f [] = Inr []"
| "collect f (x # xs) =
     (case f x of
        Inl e \<Rightarrow> Inl e
      | Inr ys \<Rightarrow> (case collect f xs of Inl e \<Rightarrow> Inl e | Inr zs \<Rightarrow> Inr (ys @ zs)))"

section \<open>The PostScript text that is written\<close>

text \<open>
  \<open>psprint\<close> appends one line to the fragment of a puzzle. A line is kept as its
  tokens; a number formatted with \<open>%g\<close> or \<open>%d\<close> is kept as the number (exact,
  where Python has a float), a parenthesised string as \<open>Str\<close>, a literal name such as
  \<open>/Helvetica\<close> as \<open>Name\<close>. A fragment is the list of its lines, so the empty
  string is the empty list.
\<close>

datatype psop =
    Translate | Newpath | Setlinewidth | Setlinecap | Moveto | Rlineto | Lineto
  | Stroke | Closepath | Fill | Findfont | Scalefont | Setfont | Ctshow
  | Gsave | Grestore | Dup | Scale | Arc | Setgray
  | Sub | Mul | Div | Add | Exch | Clippath | Flattenpath | Pathbbox | Pop | Roll

datatype pstok = Num rat | Op psop | Str string | Name string

type_synonym psline = "pstok list"
type_synonym fragment = "psline list"
type_synonym coords = "int \<times> int \<times> int \<times> int"

abbreviation N :: "int \<Rightarrow> pstok" where
  "N i \<equiv> Num (of_int i)"

section \<open>The loop over the seed\<close>

text \<open>
  Every formatter consumes the seed with \<open>while len(seed) > 0: ...\<close>. The loop is
  the same in all of them; the body differs. A body that neither shortens the seed nor
  raises leaves the loop running forever.
\<close>

partial_function (option) seed_loop ::
  "(string \<Rightarrow> 's \<Rightarrow> py_error + string \<times> 's) \<Rightarrow> string \<Rightarrow> 's \<Rightarrow> (py_error + 's) option" where
  "seed_loop body seed st =
     (if seed = [] then Some (Inr st)
      else (case body seed st of
              Inl e \<Rightarrow> Some (Inl e)
            | Inr (seed', st') \<Rightarrow> seed_loop body seed' st'))"

declare seed_loop.simps [code]

text \<open>
  The inner loop \<open>while len(seed) > 0 and seed[0] in string.digits\<close>, which moves
  the leading digits of the seed to \<open>ns\<close>.
\<close>

fun digit_run :: "string \<Rightarrow> string \<Rightarrow> string \<times> string" where
  "digit_run ns [] = (ns, [])"
| "digit_run ns (c # cs) =
     (if c \<in> set digits then digit_run (ns @ [c]) cs else (ns, c # cs))"

text \<open>
  \<open>params, seed = string.split(s, ":")\<close>: the unpacking raises \<open>ValueError\<close>
  unless the split gives exactly two parts.
\<close>

definition split_descriptor :: "string \<Rightarrow> py_error + string \<times> string" where
  "split_descriptor s =
     (case split s CHR '':'' of
        [params, seed] \<Rightarrow> Inr (params, seed)
      | _ \<Rightarrow> Inl ValueError)"

text \<open>Splitting \<open>params\<close> at \<open>x\<close> and converting both parts.\<close>

definition parse_dims :: "string \<Rightarrow> py_error + int \<times> int" where
  "parse_dims params =
     (case map atoi (split params CHR ''x'') of
        [Some w, Some h] \<Rightarrow> Inr (w, h)
      | _ \<Rightarrow> Inl ValueError)"

section \<open>Rectangles\<close>

text \<open>
  Each formatter is given in two parts, cut at its assertion: \<open>rect_decode\<close> is
  \<open>rect_format\<close> up to and including \<open>assert w * h == len(grid)\<close>,
  \<open>rect_render\<close> is the rest, and \<open>rect_format\<close> runs one after the other.
  The other formatters are cut the same way.
\<close>

text \<open>The body of the seed loop of \<open>rect_format\<close> (and, unchanged, of \<open>solo_format\<close>).\<close>

definition rect_seed_body :: "string \<Rightarrow> int list \<Rightarrow> py_error + string \<times> int list" where
  "rect_seed_body seed grid =
     (if hd seed \<in> set (CHR ''_'' # lowercase) then
        Inr (tl seed,
             if hd seed \<in> set lowercase
             then grid @ replicate (nat (ord (hd seed) - ord CHR ''a'' + 1)) (- 1)
             else grid)
      else if hd seed \<in> set digits then
        (case digit_run [] seed of
           (ns, seed') \<Rightarrow>
             (case atoi ns of
                None \<Rightarrow> Inl ValueError
              | Some n \<Rightarrow> Inr (seed', grid @ [n])))
      else Inr (seed, grid))"

record grid_model =
  width :: int
  height :: int
  cells :: "int list"

definition rect_decode :: "string \<Rightarrow> (py_error + grid_model) option" where
  "rect_decode s =
     (case split_descriptor s of
        Inl e \<Rightarrow> Some (Inl e)
      | Inr (params, seed) \<Rightarrow>
          (case parse_dims params of
             Inl e \<Rightarrow> Some (Inl e)
           | Inr (w, h) \<Rightarrow>
               (case seed_loop rect_seed_body seed [] of
                  None \<Rightarrow> None
                | Some (Inl e) \<Rightarrow> Some (Inl e)
                | Some (Inr grid) \<Rightarrow>
                    if w * h = int (length grid)
                    then Some (Inr \<lparr>width = w, height = h, cells = grid\<rparr>)
                    else Some (Inl AssertionError))))"

text \<open>The grid lines shared by several formatters.\<close>

definition vline :: "int \<Rightarrow> int \<Rightarrow> psline" where
  "vline x len = [N x, N 0, Op Moveto, N 0, N len, Op Rlineto]"

definition hline :: "int \<Rightarrow> int \<Rightarrow> psline" where
  "hline y len = [N 0, N y, Op Moveto, N len, N 0, Op Rlineto]"

definition boxpath :: "int \<Rightarrow> int \<Rightarrow> int \<Rightarrow> psline" where
  "boxpath a b c =
     [N 0, N 0, Op Moveto, N 0, N a, Op Rlineto, N b, N 0, Op Rlineto, N 0, N c, Op Rlineto]"

definition setfont :: "string \<Rightarrow> int \<Rightarrow> psline" where
  "setfont font textht = [Name font, Op Findfont, N textht, Op Scalefont, Op Setfont]"

definition ctshow :: "rat \<Rightarrow> rat \<Rightarrow> string \<Rightarrow> psline" where
  "ctshow x y label = [Num x, Num y, Str label, Op Ctshow]"

definition rect_render :: "grid_model \<Rightarrow> coords \<times> fragment" where
  "rect_render g =
     (let w = width g; h = height g; grid = cells g;
          textht = 7; gridpitch = 14;
          pw = gridpitch * w; ph = gridpitch * h;
          coords = (pw div 2, pw div 2, ph div 2, ph div 2)
      in (coords,
          [[N (- (pw div 2)), N (- (ph div 2)), Op Translate]]
          @ [[Op Newpath, Num (1 / 100), Op Setlinewidth]]
          @ map (\<lambda>x. vline (x * gridpitch) (h * gridpitch)) [1..w - 1]
          @ map (\<lambda>y. hline (y * gridpitch) (w * gridpitch)) [1..h - 1]
          @ [[Op Stroke]]
          @ [[Op Newpath, Num (3 / 2), Op Setlinewidth]]
          @ [boxpath (h * gridpitch) (w * gridpitch) (- h * gridpitch)]
          @ [[Op Closepath, Op Stroke]]
          @ [setfont ''Helvetica'' textht]
          @ concat (map (\<lambda>y. concat (map (\<lambda>x.
                let n = grid ! nat (y * w + x)
                in if n > 0
                   then [ctshow ((of_int x + 1 / 2) * of_int gridpitch)
                                ((of_int h - of_int y - 1 / 2) * of_int gridpitch)
                                (show_int n)]
                   else []) [0..w - 1])) [0..h - 1])))"

definition rect_format :: "string \<Rightarrow> (py_error + coords \<times> fragment) option" where
  "rect_format s =
     (case rect_decode s of
        None \<Rightarrow> None
      | Some (Inl e) \<Rightarrow> Some (Inl e)
      | Some (Inr g) \<Rightarrow> Some (Inr (rect_render g)))"


section \<open>Net\<close>

text \<open>
  The inner loop \<open>while len(seed) > 0 and seed[0] in 'hv'\<close>: \<open>n\<close> is
  \<open>len(grid)\<close>, which does not change inside it. \<open>len(grid) % w\<close> raises when
  \<open>w\<close> is zero.
\<close>

fun barrier_run ::
  "int \<Rightarrow> int \<Rightarrow> string \<Rightarrow> (int \<times> int) list \<Rightarrow> (int \<times> int) list
   \<Rightarrow> py_error + string \<times> (int \<times> int) list \<times> (int \<times> int) list" where
  "barrier_run w n [] hb vb = Inr ([], hb, vb)"
| "barrier_run w n (c # cs) hb vb =
     (if c \<in> set ''hv'' then
        (if w = 0 then Inl ZeroDivisionError
         else let x = n mod w; y = n div w
              in if c = CHR ''h'' then barrier_run w n cs (hb @ [(x, y + 1)]) vb
                 else barrier_run w n cs hb (vb @ [(x + 1, y)]))
      else Inr (c # cs, hb, vb))"

type_synonym net_state = "int list \<times> (int \<times> int) list \<times> (int \<times> int) list"

definition net_seed_body :: "int \<Rightarrow> string \<Rightarrow> net_state \<Rightarrow> py_error + string \<times> net_state" where
  "net_seed_body w seed st =
     (case st of (grid, hbarriers, vbarriers) \<Rightarrow>
        (case atoi16 (hd seed) of
           None \<Rightarrow> Inl ValueError
         | Some n \<Rightarrow>
             (case barrier_run w (int (length grid)) (tl seed) hbarriers vbarriers of
                Inl e \<Rightarrow> Inl e
              | Inr (seed', hb, vb) \<Rightarrow> Inr (seed', grid @ [n], hb, vb))))"

record net_model = grid_model +
  wrapping :: bool
  hbarriers :: "(int \<times> int) list"
  vbarriers :: "(int \<times> int) list"

definition net_decode :: "string \<Rightarrow> (py_error + net_model) option" where
  "net_decode s =
     (case split_descriptor s of
        Inl e \<Rightarrow> Some (Inl e)
      | Inr (params0, seed) \<Rightarrow>
          (let wr = (params0 \<noteq> [] \<and> last params0 = CHR ''w'');
               params = (if wr then butlast params0 else params0)
           in case parse_dims params of
                Inl e \<Rightarrow> Some (Inl e)
              | Inr (w, h) \<Rightarrow>
                  (case seed_loop (net_seed_body w) seed ([], [], []) of
                     None \<Rightarrow> None
                   | Some (Inl e) \<Rightarrow> Some (Inl e)
                   | Some (Inr (grid, hb, vb)) \<Rightarrow>
                       if w * h = int (length grid)
                       then Some (Inr \<lparr>width = w, height = h, cells = grid,
                                       wrapping = wr, hbarriers = hb, vbarriers = vb\<rparr>)
                       else Some (Inl AssertionError))))"

text \<open>"Rotate to canonical form."\<close>

definition net_canon :: "int \<Rightarrow> int" where
  "net_canon v =
     (if v \<in> set [1, 2, 4, 8] then 1
      else if v \<in> set [5, 10] then 5
      else if v \<in> set [3, 6, 9, 12] then 9
      else if v \<in> set [7, 11, 13, 14] then 13
      else v)"

definition net_square :: "rat \<Rightarrow> psline list" where
  "net_square squaresize =
     [[Op Newpath, Num squaresize, Num squaresize, Op Moveto,
       N 0, Num (- (squaresize * 2)), Op Rlineto],
      [Num (- (squaresize * 2)), N 0, Op Rlineto, N 0, Num (squaresize * 2), Op Rlineto,
       Op Closepath, Op Fill]]"

definition net_cell :: "int \<Rightarrow> int \<Rightarrow> int list \<Rightarrow> int \<Rightarrow> psline list" where
  "net_cell w h grid i =
     (let gridpitch = 24; scale = 1 / 4; bigoffset = 1 / 4; smalloffset = 17 / 100;
          squaresize = 1 / 4;
          x = i mod w; y = i div w;
          v = net_canon (grid ! nat i);
          hoffset = (if v AND 4 \<noteq> 0 then bigoffset else smalloffset);
          voffset = (if v AND 2 \<noteq> 0 then bigoffset else smalloffset)
      in [[Op Gsave]]
         @ [[Num ((of_int x + hoffset) * of_int gridpitch),
             Num ((of_int h - of_int y - voffset) * of_int gridpitch), Op Translate]]
         @ [[Num (of_int gridpitch * scale / 2), Op Dup, Op Scale]]
         @ [[Op Newpath, Num (7 / 100), Op Setlinewidth]]
         @ concat (map (\<lambda>(dx, dy, z).
              if v AND z \<noteq> 0 then [[N 0, N 0, Op Moveto, N dx, N dy, Op Lineto]] else [])
              [(1, 0, 1), (0, 1, 2), (- 1, 0, 4), (0, - 1, 8)])
         @ [[Op Stroke]]
         @ (if v = 1 then net_square squaresize else [])
         @ [[Op Grestore]]
         @ (if v = 1 then
              [[Op Gsave]]
              @ [[Num ((of_int x + 1 / 2) * of_int gridpitch),
                  Num ((of_int h - of_int y - 1 / 2) * of_int gridpitch), Op Translate]]
              @ [[Num (of_int gridpitch / 2), Op Dup, Op Scale]]
              @ net_square squaresize
              @ [[Op Grestore]]
            else []))"

definition net_render :: "net_model \<Rightarrow> coords \<times> fragment" where
  "net_render g =
     (let w = width g; h = height g; grid = cells g;
          gridpitch = 24;
          pw = gridpitch * w; ph = gridpitch * h;
          coords = (pw div 2, pw div 2, ph div 2, ph div 2)
      in (coords,
          [[N (- (pw div 2)), N (- (ph div 2)), Op Translate]]
          @ [[Op Newpath, Num (2 / 100), Op Setlinewidth]]
          @ map (\<lambda>x. vline (x * gridpitch) (h * gridpitch)) [1..w - 1]
          @ map (\<lambda>y. hline (y * gridpitch) (w * gridpitch)) [1..h - 1]
          @ [[Op Stroke]]
          @ [[Op Newpath]]
          @ (if \<not> wrapping g then [[N 2, Op Setlinewidth]] else [])
          @ [boxpath (h * gridpitch) (w * gridpitch) (- h * gridpitch)]
          @ [[Op Closepath, Op Stroke]]
          @ [[Op Newpath, N 2, Op Setlinewidth, N 1, Op Setlinecap]]
          @ map (\<lambda>(x, y). [N (x * gridpitch), N ((h - y) * gridpitch), Op Moveto,
                            N gridpitch, N 0, Op Rlineto]) (hbarriers g)
          @ map (\<lambda>(x, y). [N (x * gridpitch), N ((h - y) * gridpitch), Op Moveto,
                            N 0, N (- gridpitch), Op Rlineto]) (vbarriers g)
          @ [[Op Stroke]]
          @ concat (map (net_cell w h grid) [0..int (length grid) - 1])))"

definition net_format :: "string \<Rightarrow> (py_error + coords \<times> fragment) option" where
  "net_format s =
     (case net_decode s of
        None \<Rightarrow> None
      | Some (Inl e) \<Rightarrow> Some (Inl e)
      | Some (Inr g) \<Rightarrow> Some (Inr (net_render g)))"

section \<open>Pattern\<close>

text \<open>
  Python slices \<open>xs[i:]\<close> and \<open>xs[:i]\<close>: a negative index counts from the end,
  and the index is then clamped to the list.
\<close>

definition slice_index :: "'a list \<Rightarrow> int \<Rightarrow> nat" where
  "slice_index xs i =
     (let n = int (length xs); j = (if i < 0 then i + n else i)
      in nat (max 0 (min n j)))"

definition slice_from :: "'a list \<Rightarrow> int \<Rightarrow> 'a list" where
  "slice_from xs i = drop (slice_index xs i) xs"

definition slice_to :: "'a list \<Rightarrow> int \<Rightarrow> 'a list" where
  "slice_to xs i = take (slice_index xs i) xs"

text \<open>\<open>reduce(max, xs)\<close> without an initial value raises \<open>TypeError\<close> on the empty list.\<close>

definition reduce_max :: "int list \<Rightarrow> py_error + int" where
  "reduce_max xs = (case xs of [] \<Rightarrow> Inl TypeError | x # ys \<Rightarrow> Inr (foldl max x ys))"

record pattern_model =
  pwidth :: int
  pheight :: int
  rowdata :: "string list list"

definition pattern_decode :: "string \<Rightarrow> (py_error + pattern_model) option" where
  "pattern_decode s =
     (case split_descriptor s of
        Inl e \<Rightarrow> Some (Inl e)
      | Inr (params, seed) \<Rightarrow>
          (case parse_dims params of
             Inl e \<Rightarrow> Some (Inl e)
           | Inr (w, h) \<Rightarrow>
               (let rowdata = map (\<lambda>s. split s CHR ''.'') (split seed CHR ''/'')
                in if int (length rowdata) = w + h
                   then Some (Inr \<lparr>pwidth = w, pheight = h, rowdata = rowdata\<rparr>)
                   else Some (Inl AssertionError))))"

text \<open>
  The numbers of one row or column, written from the last to the first, each one
  grid pitch further from the grid.
\<close>

definition pattern_numbers :: "int \<Rightarrow> int \<Rightarrow> string list \<Rightarrow> psline list" where
  "pattern_numbers w i ns =
     (let gridpitch = 14; gutter = 8;
          xo = (if i < w then (of_int i + 1 / 2) * of_int gridpitch
                else - (of_int gutter + 1 / 2 * of_int gridpitch));
          yo = (if i < w then of_int gutter + 1 / 2 * of_int gridpitch
                else (of_int (i - w) + 1 / 2) * - of_int gridpitch)
      in map (\<lambda>(k, label).
                if i < w then ctshow xo (yo + of_nat k * of_int gridpitch) label
                else ctshow (xo - of_nat k * of_int gridpitch) yo label)
             (enumerate 0 (rev ns)))"

definition pattern_render :: "pattern_model \<Rightarrow> py_error + coords \<times> fragment" where
  "pattern_render g =
     (let w = pwidth g; h = pheight g;
          textht = 7; gridpitch = 14; gutter = 8
      in case reduce_max (map (\<lambda>ns. int (length ns)) (slice_from (rowdata g) w)) of
           Inl e \<Rightarrow> Inl e
         | Inr xborder \<Rightarrow>
        (case reduce_max (map (\<lambda>ns. int (length ns)) (slice_to (rowdata g) w)) of
           Inl e \<Rightarrow> Inl e
         | Inr yborder \<Rightarrow>
             Inr ((xborder * gridpitch + gutter, w * gridpitch,
                   yborder * gridpitch + gutter, h * gridpitch),
                  [[Op Newpath, Num (1 / 10), Op Setlinewidth]]
                  @ map (\<lambda>x. vline (x * gridpitch) (- h * gridpitch))
                        (filter (\<lambda>x. x mod 5 \<noteq> 0) [1..w - 1])
                  @ map (\<lambda>y. hline (- y * gridpitch) (w * gridpitch))
                        (filter (\<lambda>y. y mod 5 \<noteq> 0) [1..h - 1])
                  @ [[Op Stroke]]
                  @ [[Op Newpath, Num (3 / 4), Op Setlinewidth]]
                  @ map (\<lambda>x. vline (x * gridpitch) (- h * gridpitch)) (xrange_step 5 w 5)
                  @ map (\<lambda>y. hline (- y * gridpitch) (w * gridpitch)) (xrange_step 5 h 5)
                  @ [[Op Stroke]]
                  @ [[Op Newpath, Num (3 / 2), Op Setlinewidth]]
                  @ [boxpath (- h * gridpitch) (w * gridpitch) (h * gridpitch)]
                  @ [[Op Closepath, Op Stroke]]
                  @ [setfont ''Helvetica'' textht]
                  @ concat (map (\<lambda>i. pattern_numbers w i (rowdata g ! nat i))
                                [0..w + h - 1]))))"

definition pattern_format :: "string \<Rightarrow> (py_error + coords \<times> fragment) option" where
  "pattern_format s =
     (case pattern_decode s of
        None \<Rightarrow> None
      | Some (Inl e) \<Rightarrow> Some (Inl e)
      | Some (Inr g) \<Rightarrow> Some (pattern_render g))"

section \<open>Solo\<close>

text \<open>
  The parameters of Solo are the block dimensions \<open>c\<close> and \<open>r\<close>; the grid is
  \<open>cr\<close> by \<open>cr\<close> with \<open>cr = c * r\<close>. The seed loop is that of Rectangles.
\<close>

definition solo_seed_body :: "string \<Rightarrow> int list \<Rightarrow> py_error + string \<times> int list" where
  "solo_seed_body seed grid =
     (if hd seed \<in> set (CHR ''_'' # lowercase) then
        Inr (tl seed,
             if hd seed \<in> set lowercase
             then grid @ replicate (nat (ord (hd seed) - ord CHR ''a'' + 1)) (- 1)
             else grid)
      else if hd seed \<in> set digits then
        (case digit_run [] seed of
           (ns, seed') \<Rightarrow>
             (case atoi ns of
                None \<Rightarrow> Inl ValueError
              | Some n \<Rightarrow> Inr (seed', grid @ [n])))
      else Inr (seed, grid))"

record solo_model =
  cols :: int
  rows :: int
  scells :: "int list"

definition solo_decode :: "string \<Rightarrow> (py_error + solo_model) option" where
  "solo_decode s =
     (case split_descriptor s of
        Inl e \<Rightarrow> Some (Inl e)
      | Inr (params, seed) \<Rightarrow>
          (case parse_dims params of
             Inl e \<Rightarrow> Some (Inl e)
           | Inr (c, r) \<Rightarrow>
               (let cr = c * r
                in case seed_loop solo_seed_body seed [] of
                     None \<Rightarrow> None
                   | Some (Inl e) \<Rightarrow> Some (Inl e)
                   | Some (Inr grid) \<Rightarrow>
                       if cr * cr = int (length grid)
                       then Some (Inr \<lparr>cols = c, rows = r, scells = grid\<rparr>)
                       else Some (Inl AssertionError))))"

text \<open>\<open>chr(i)\<close> raises \<open>ValueError\<close> outside \<open>range(256)\<close>.\<close>

definition chr :: "int \<Rightarrow> py_error + char" where
  "chr i = (if 0 \<le> i \<and> i < 256 then Inr (char_of (nat i)) else Inl ValueError)"

definition solo_number :: "int \<Rightarrow> int \<Rightarrow> int \<Rightarrow> int \<Rightarrow> py_error + psline list" where
  "solo_number cr n x y =
     (let gridpitch = 16
      in if n > 0 then
           (case (if n > 9 then chr (ord CHR ''a'' + n - 10) else chr (ord CHR ''0'' + n)) of
              Inl e \<Rightarrow> Inl e
            | Inr s \<Rightarrow>
                Inr [ctshow ((of_int x + 1 / 2) * of_int gridpitch)
                            ((of_int cr - of_int y - 1 / 2) * of_int gridpitch) [s]])
         else Inr [])"

definition solo_render :: "solo_model \<Rightarrow> py_error + coords \<times> fragment" where
  "solo_render g =
     (let c = cols g; r = rows g; grid = scells g; cr = c * r;
          textht = 9; gridpitch = 16;
          pw = gridpitch * cr; ph = gridpitch * cr
      in case xrange3 r cr r of
           Inl e \<Rightarrow> Inl e
         | Inr thickx \<Rightarrow>
        (case xrange3 c cr c of
           Inl e \<Rightarrow> Inl e
         | Inr thicky \<Rightarrow>
        (case collect (\<lambda>y. collect (\<lambda>x. solo_number cr (grid ! nat (y * cr + x)) x y)
                                   [0..cr - 1]) [0..cr - 1] of
           Inl e \<Rightarrow> Inl e
         | Inr numbers \<Rightarrow>
             Inr ((pw div 2, pw div 2, ph div 2, ph div 2),
                  [[N (- (pw div 2)), N (- (ph div 2)), Op Translate]]
                  @ [[Op Newpath, Num (1 / 10), Op Setlinewidth]]
                  @ map (\<lambda>x. vline (x * gridpitch) (cr * gridpitch))
                        (filter (\<lambda>x. x mod r \<noteq> 0) [1..cr - 1])
                  @ map (\<lambda>y. hline (y * gridpitch) (cr * gridpitch))
                        (filter (\<lambda>y. y mod c \<noteq> 0) [1..cr - 1])
                  @ [[Op Stroke]]
                  @ [[Op Newpath, N 1, Op Setlinewidth]]
                  @ map (\<lambda>x. vline (x * gridpitch) (cr * gridpitch)) thickx
                  @ map (\<lambda>y. hline (y * gridpitch) (cr * gridpitch)) thicky
                  @ [[Op Stroke]]
                  @ [[Op Newpath, Num (3 / 2), Op Setlinewidth]]
                  @ [boxpath (cr * gridpitch) (cr * gridpitch) (- cr * gridpitch)]
                  @ [[Op Closepath, Op Stroke]]
                  @ [setfont ''Helvetica'' textht]
                  @ numbers))))"

definition solo_format :: "string \<Rightarrow> (py_error + coords \<times> fragment) option" where
  "solo_format s =
     (case solo_decode s of
        None \<Rightarrow> None
      | Some (Inl e) \<Rightarrow> Some (Inl e)
      | Some (Inr g) \<Rightarrow> Some (solo_render g))"

section \<open>Dominosa\<close>

text \<open>
  The parameter is one number \<open>n\<close>; the grid is \<open>n + 2\<close> by \<open>n + 1\<close>. In the
  seed a bracket opens a number of several digits: the rest of the seed is split at
  \<open>]\<close> and must give exactly two parts.
\<close>

definition dominosa_seed_body :: "string \<Rightarrow> int list \<Rightarrow> py_error + string \<times> int list" where
  "dominosa_seed_body seed grid =
     (if hd seed = CHR ''['' then
        (case split (tl seed) CHR '']'' of
           [d, seed'] \<Rightarrow>
             (case atoi d of
                None \<Rightarrow> Inl ValueError
              | Some n \<Rightarrow> Inr (seed', grid @ [n]))
         | _ \<Rightarrow> Inl ValueError)
      else if hd seed \<notin> set digits then Inl AssertionError
      else (case atoi [hd seed] of
              None \<Rightarrow> Inl ValueError
            | Some n \<Rightarrow> Inr (tl seed, grid @ [n])))"

definition dominosa_decode :: "string \<Rightarrow> (py_error + grid_model) option" where
  "dominosa_decode s =
     (case split_descriptor s of
        Inl e \<Rightarrow> Some (Inl e)
      | Inr (params, seed) \<Rightarrow>
          (case atoi params of
             None \<Rightarrow> Some (Inl ValueError)
           | Some n \<Rightarrow>
               (let w = n + 2; h = n + 1
                in case seed_loop dominosa_seed_body seed [] of
                     None \<Rightarrow> None
                   | Some (Inl e) \<Rightarrow> Some (Inl e)
                   | Some (Inr grid) \<Rightarrow>
                       if w * h = int (length grid)
                       then Some (Inr \<lparr>width = w, height = h, cells = grid\<rparr>)
                       else Some (Inl AssertionError))))"

definition dominosa_render :: "grid_model \<Rightarrow> coords \<times> fragment" where
  "dominosa_render g =
     (let w = width g; h = height g; grid = cells g;
          textht = 9; gridpitch = 16;
          pw = gridpitch * w; ph = gridpitch * h
      in ((pw div 2, pw div 2, ph div 2, ph div 2),
          [setfont ''Helvetica'' textht]
          @ [[N (- (pw div 2)), N (- (ph div 2)), Op Translate]]
          @ concat (map (\<lambda>y. map (\<lambda>x.
                ctshow ((of_int x + 1 / 2) * of_int gridpitch)
                       ((of_int h - of_int y - 1 / 2) * of_int gridpitch)
                       (show_int (grid ! nat (y * w + x)))) [0..w - 1]) [0..h - 1])))"

definition dominosa_format :: "string \<Rightarrow> (py_error + coords \<times> fragment) option" where
  "dominosa_format s =
     (case dominosa_decode s of
        None \<Rightarrow> None
      | Some (Inl e) \<Rightarrow> Some (Inl e)
      | Some (Inr g) \<Rightarrow> Some (Inr (dominosa_render g)))"

section \<open>Slant\<close>

text \<open>The clues of Slant sit on the grid points, \<open>w + 1\<close> by \<open>h + 1\<close> of them.\<close>

definition slant_seed_body :: "string \<Rightarrow> int list \<Rightarrow> py_error + string \<times> int list" where
  "slant_seed_body seed grid =
     (if hd seed \<in> set lowercase then
        Inr (tl seed, grid @ replicate (nat (ord (hd seed) - ord CHR ''a'' + 1)) (- 1))
      else if hd seed \<in> set ''01234'' then
        (case atoi [hd seed] of
           None \<Rightarrow> Inl ValueError
         | Some n \<Rightarrow> Inr (tl seed, grid @ [n]))
      else Inr (seed, grid))"

definition slant_decode :: "string \<Rightarrow> (py_error + grid_model) option" where
  "slant_decode s =
     (case split_descriptor s of
        Inl e \<Rightarrow> Some (Inl e)
      | Inr (params, seed) \<Rightarrow>
          (case parse_dims params of
             Inl e \<Rightarrow> Some (Inl e)
           | Inr (w, h) \<Rightarrow>
               (let W = w + 1; H = h + 1
                in case seed_loop slant_seed_body seed [] of
                     None \<Rightarrow> None
                   | Some (Inl e) \<Rightarrow> Some (Inl e)
                   | Some (Inr grid) \<Rightarrow>
                       if W * H = int (length grid)
                       then Some (Inr \<lparr>width = w, height = h, cells = grid\<rparr>)
                       else Some (Inl AssertionError))))"

definition slant_clue :: "int \<Rightarrow> int \<Rightarrow> int \<Rightarrow> int \<Rightarrow> psline list" where
  "slant_clue h n x y =
     (let textht = 7; gridpitch = 14; radius = textht * 2 / 3
      in if n \<ge> 0
         then [[Op Newpath, N (x * gridpitch), N ((h - y) * gridpitch), Num radius,
                N 0, N 360, Op Arc,
                Op Gsave, N 1, Op Setgray, Op Fill, Op Grestore, Op Stroke],
               ctshow (of_int (x * gridpitch)) (of_int ((h - y) * gridpitch)) (show_int n)]
         else [])"

definition slant_render :: "grid_model \<Rightarrow> coords \<times> fragment" where
  "slant_render g =
     (let w = width g; h = height g; grid = cells g; W = w + 1; H = h + 1;
          textht = 7; gridpitch = 14;
          pw = gridpitch * w; ph = gridpitch * h
      in ((pw div 2, pw div 2, ph div 2, ph div 2),
          [[N (- (pw div 2)), N (- (ph div 2)), Op Translate]]
          @ [[Op Newpath, N 1, Op Setlinewidth]]
          @ [boxpath (h * gridpitch) (w * gridpitch) (- h * gridpitch)]
          @ [[Op Closepath, Op Stroke]]
          @ [[Op Newpath, Num (1 / 100), Op Setlinewidth]]
          @ map (\<lambda>x. vline (x * gridpitch) (h * gridpitch)) [1..w - 1]
          @ map (\<lambda>y. hline (y * gridpitch) (w * gridpitch)) [1..h - 1]
          @ [[Op Stroke]]
          @ [setfont ''Helvetica'' textht]
          @ concat (map (\<lambda>y. concat (map (\<lambda>x.
                slant_clue h (grid ! nat (y * W + x)) x y) [0..W - 1])) [0..H - 1])))"

definition slant_format :: "string \<Rightarrow> (py_error + coords \<times> fragment) option" where
  "slant_format s =
     (case slant_decode s of
        None \<Rightarrow> None
      | Some (Inl e) \<Rightarrow> Some (Inl e)
      | Some (Inr g) \<Rightarrow> Some (Inr (slant_render g)))"

section \<open>Light Up\<close>

definition lightup_seed_body :: "string \<Rightarrow> int list \<Rightarrow> py_error + string \<times> int list" where
  "lightup_seed_body seed grid =
     (if hd seed \<in> set lowercase then
        Inr (tl seed, grid @ replicate (nat (ord (hd seed) - ord CHR ''a'' + 1)) (- 2))
      else if hd seed = CHR ''B'' then
        Inr (tl seed, grid @ [- 1])
      else if hd seed \<in> set ''01234'' then
        (case atoi [hd seed] of
           None \<Rightarrow> Inl ValueError
         | Some n \<Rightarrow> Inr (tl seed, grid @ [n]))
      else Inr (seed, grid))"

definition lightup_decode :: "string \<Rightarrow> (py_error + grid_model) option" where
  "lightup_decode s =
     (case split_descriptor s of
        Inl e \<Rightarrow> Some (Inl e)
      | Inr (params, seed) \<Rightarrow>
          (case parse_dims params of
             Inl e \<Rightarrow> Some (Inl e)
           | Inr (w, h) \<Rightarrow>
               (case seed_loop lightup_seed_body seed [] of
                  None \<Rightarrow> None
                | Some (Inl e) \<Rightarrow> Some (Inl e)
                | Some (Inr grid) \<Rightarrow>
                    if w * h = int (length grid)
                    then Some (Inr \<lparr>width = w, height = h, cells = grid\<rparr>)
                    else Some (Inl AssertionError))))"

definition lightup_square :: "int \<Rightarrow> int \<Rightarrow> int \<Rightarrow> int \<Rightarrow> psline list" where
  "lightup_square h n x y =
     (let gridpitch = 14
      in if n \<ge> - 1
         then [[Op Newpath, N (x * gridpitch), N ((h - 1 - y) * gridpitch), Op Moveto,
                N 0, N gridpitch, Op Rlineto, N gridpitch, N 0, Op Rlineto,
                N 0, N (- gridpitch), Op Rlineto, Op Closepath, Op Fill]]
              @ (if n \<ge> 0
                 then [[Op Gsave, N 1, Op Setgray,
                        Num ((of_int x + 1 / 2) * of_int gridpitch),
                        Num ((of_int h - of_int y - 1 / 2) * of_int gridpitch),
                        Str (show_int n), Op Ctshow, Op Grestore]]
                 else [])
         else [])"

definition lightup_render :: "grid_model \<Rightarrow> coords \<times> fragment" where
  "lightup_render g =
     (let w = width g; h = height g; grid = cells g;
          textht = 10; gridpitch = 14;
          pw = gridpitch * w; ph = gridpitch * h
      in ((pw div 2, pw div 2, ph div 2, ph div 2),
          [[N (- (pw div 2)), N (- (ph div 2)), Op Translate]]
          @ [[Op Newpath, N 1, Op Setlinewidth]]
          @ [boxpath (h * gridpitch) (w * gridpitch) (- h * gridpitch)]
          @ [[Op Closepath, Op Stroke]]
          @ [[Op Newpath, Num (2 / 100), Op Setlinewidth]]
          @ map (\<lambda>x. vline (x * gridpitch) (h * gridpitch)) [1..w - 1]
          @ map (\<lambda>y. hline (y * gridpitch) (w * gridpitch)) [1..h - 1]
          @ [[Op Stroke]]
          @ [setfont ''Helvetica-Bold'' textht]
          @ concat (map (\<lambda>y. concat (map (\<lambda>x.
                lightup_square h (grid ! nat (y * w + x)) x y) [0..w - 1])) [0..h - 1])))"

definition lightup_format :: "string \<Rightarrow> (py_error + coords \<times> fragment) option" where
  "lightup_format s =
     (case lightup_decode s of
        None \<Rightarrow> None
      | Some (Inl e) \<Rightarrow> Some (Inl e)
      | Some (Inr g) \<Rightarrow> Some (Inr (lightup_render g)))"

text \<open>The dictionary \<open>formatters\<close>.\<close>

type_synonym formatter = "string \<Rightarrow> (py_error + coords \<times> fragment) option"

definition formatters :: "string \<rightharpoonup> formatter" where
  "formatters = map_of
     [(''net'', net_format),
      (''rect'', rect_format),
      (''rectangles'', rect_format),
      (''pattern'', pattern_format),
      (''solo'', solo_format),
      (''dominosa'', dominosa_format),
      (''slant'', slant_format),
      (''lightup'', lightup_format)]"

section \<open>The main program\<close>

text \<open>
  Standard output is a list of lines: the lines that print.py writes as they stand
  are \<open>Text\<close>, the lines that position and draw one puzzle are kept as tokens.
\<close>

datatype out = Text string | Toks psline

text \<open>
  How a run ends: \<open>sys.exit(n)\<close> or falling off the end of the script (\<open>Exit 0\<close>),
  an uncaught exception, or never.
\<close>

datatype status = Exit int | Traceback py_error | Hang

text \<open>
  \<open>sys.stdin.readline()\<close> on the rest of the input: the next line with its newline,
  or what is left when there is no newline, or the empty string at the end.
\<close>

definition readline :: "string \<Rightarrow> string \<times> string" where
  "readline inp =
     (case dropWhile (\<lambda>c. c \<noteq> CHR 0x0A) inp of
        [] \<Rightarrow> (inp, [])
      | c # rest \<Rightarrow> (takeWhile (\<lambda>c. c \<noteq> CHR 0x0A) inp @ [c], rest))"

function read_ids :: "string \<Rightarrow> string list \<Rightarrow> string list" where
  "read_ids inp ids =
     (case readline inp of
        (s, rest) \<Rightarrow>
          if s = [] then ids
          else read_ids rest (ids @ [if last s = CHR 0x0A then butlast s else s]))"
  by pat_completeness auto
termination
proof (relation "measure (\<lambda>(inp, ids). length inp)")
  show "wf (measure (\<lambda>(inp, ids). length inp))" by simp
next
  fix inp :: string and ids :: "string list" and s rest
  assume a: "(s, rest) = readline inp" "s \<noteq> []"
  have le: "length (dropWhile (\<lambda>c. c \<noteq> CHR 0x0A) inp) \<le> length inp"
    by (rule length_dropWhile_le)
  from a have "length rest < length inp"
    using le by (auto simp: readline_def split: list.splits)
  then show "((rest, ids @ [if last s = CHR 0x0A then butlast s else s]), (inp, ids))
               \<in> measure (\<lambda>(inp, ids). length inp)"
    by simp
qed

declare read_ids.simps [simp del]

text \<open>The tables that are rebuilt for every page, and the global \<open>puzzle_index\<close>.\<close>

record page_state =
  fragments :: "fragment list list"
  lrbound :: "(int \<times> int) list"
  tbbound :: "(int \<times> int) list"
  puzzle_index :: nat

definition new_page :: "int \<Rightarrow> int \<Rightarrow> nat \<Rightarrow> page_state" where
  "new_page xx yy idx =
     \<lparr>fragments = replicate (nat yy) (replicate (nat xx) []),
      lrbound = replicate (nat xx) (0, 0),
      tbbound = replicate (nat yy) (0, 0),
      puzzle_index = idx\<rparr>"

text \<open>
  The inner loop \<open>for x in xrange(xx)\<close> of the fill: \<open>break\<close> leaves it when the
  puzzles have run out.
\<close>

fun fill_row ::
  "formatter \<Rightarrow> string list \<Rightarrow> nat \<Rightarrow> nat list \<Rightarrow> page_state \<Rightarrow> (py_error + page_state) option" where
  "fill_row f ids y [] st = Some (Inr st)"
| "fill_row f ids y (x # xs) st =
     (if puzzle_index st \<ge> length ids then Some (Inr st)
      else (case f (ids ! puzzle_index st) of
              None \<Rightarrow> None
            | Some (Inl e) \<Rightarrow> Some (Inl e)
            | Some (Inr ((c0, c1, c2, c3), frag)) \<Rightarrow>
                (case lrbound st ! x of (lb, rb) \<Rightarrow>
                 case tbbound st ! y of (tb, bb) \<Rightarrow>
                   fill_row f ids y xs
                     (st\<lparr>fragments := (fragments st)[y := (fragments st ! y)[x := frag]],
                         lrbound := (lrbound st)[x := (max lb c0, max rb c1)],
                         tbbound := (tbbound st)[y := (max tb c2, max bb c3)],
                         puzzle_index := puzzle_index st + 1\<rparr>))))"

fun fill_rows ::
  "formatter \<Rightarrow> string list \<Rightarrow> nat list \<Rightarrow> nat list \<Rightarrow> page_state \<Rightarrow> (py_error + page_state) option" where
  "fill_rows f ids xs [] st = Some (Inr st)"
| "fill_rows f ids xs (y # ys) st =
     (case fill_row f ids y xs st of
        None \<Rightarrow> None
      | Some (Inl e) \<Rightarrow> Some (Inl e)
      | Some (Inr st') \<Rightarrow> fill_rows f ids xs ys st')"

definition fill_page ::
  "formatter \<Rightarrow> int \<Rightarrow> int \<Rightarrow> string list \<Rightarrow> nat \<Rightarrow> (py_error + page_state) option" where
  "fill_page f xx yy ids idx =
     fill_rows f ids [0..<nat xx] [0..<nat yy] (new_page xx yy idx)"

text \<open>\<open>reduce(lambda a,b:a+b, map(lambda (a,b):a+b, bounds), 0)\<close>\<close>

definition total :: "(int \<times> int) list \<Rightarrow> int" where
  "total bounds = foldl (+) 0 (map (\<lambda>(a, b). a + b) bounds)"

text \<open>
  The lines printed before the fragment of the puzzle in row \<open>y\<close> and column \<open>x\<close>:
  they move the origin to where the puzzle goes.
\<close>

definition position_lines :: "int \<Rightarrow> int \<Rightarrow> page_state \<Rightarrow> nat \<Rightarrow> nat \<Rightarrow> psline list" where
  "position_lines xx yy st y x =
     (let htotal = total (tbbound st);
          hbelow = total (drop (y + 1) (tbbound st)) + snd (tbbound st ! y);
          wtotal = total (lrbound st);
          wleft = total (take x (lrbound st)) + fst (lrbound st ! x)
      in [[Op Gsave],
          [Op Clippath, Op Flattenpath, Op Pathbbox, Op Pop, Op Pop, Op Translate],
          [Op Clippath, Op Flattenpath, Op Pathbbox, N 4, N 2, Op Roll, Op Pop, Op Pop],
          [N htotal, Op Sub, N (yy - int y), Op Mul, N (yy + 1), Op Div, N hbelow, Op Add,
           Op Exch],
          [N wtotal, Op Sub, N (int x + 1), Op Mul, N (xx + 1), Op Div, N wleft, Op Add,
           Op Exch],
          [Op Translate]])"

definition emit_cell :: "int \<Rightarrow> int \<Rightarrow> page_state \<Rightarrow> nat \<Rightarrow> nat \<Rightarrow> out list" where
  "emit_cell xx yy st y x =
     (if length (fragments st ! y ! x) > 0
      then map Toks (position_lines xx yy st y x)
           @ map Toks (fragments st ! y ! x)
           @ [Toks [Op Grestore]]
      else [])"

definition emit_page :: "int \<Rightarrow> int \<Rightarrow> page_state \<Rightarrow> out list" where
  "emit_page xx yy st =
     concat (map (\<lambda>y. concat (map (\<lambda>x. emit_cell xx yy st y x) [0..<nat xx])) [0..<nat yy])"

definition page_marker :: "int \<Rightarrow> out" where
  "page_marker i = Text (''%%Page: '' @ show_int i @ '' '' @ show_int i)"

text \<open>
  The loop \<open>for i in xrange(1, pages+1)\<close>. The result is what has been printed and
  how the loop ended: the final \<open>puzzle_index\<close>, an exception, or \<open>None\<close> when
  a formatter never returned.
\<close>

fun do_pages ::
  "formatter \<Rightarrow> int \<Rightarrow> int \<Rightarrow> string list \<Rightarrow> nat \<Rightarrow> int list \<Rightarrow> out list \<times> (py_error + nat) option" where
  "do_pages f xx yy ids idx [] = ([], Some (Inr idx))"
| "do_pages f xx yy ids idx (i # is) =
     (case fill_page f xx yy ids idx of
        None \<Rightarrow> ([page_marker i, Text ''save''], None)
      | Some (Inl e) \<Rightarrow> ([page_marker i, Text ''save''], Some (Inl e))
      | Some (Inr st) \<Rightarrow>
          (case do_pages f xx yy ids (puzzle_index st) is of
             (rest, r) \<Rightarrow>
               ([page_marker i, Text ''save'']
                @ emit_page xx yy st
                @ [Text ''restore showpage'']
                @ rest, r)))"

definition preamble :: "int \<Rightarrow> out list" where
  "preamble pages =
     [Text ''%!PS-Adobe-3.0'',
      Text ''%%Creator: print.py from Simon Tatham's Puzzle Collection'',
      Text ''%%DocumentData: Clean7Bit'',
      Text ''%%LanguageLevel: 1'',
      Text (''%%Pages: '' @ show_int pages),
      Text ''%%DocumentNeededResources:'',
      Text ''%%+ font Helvetica'',
      Text ''%%DocumentSuppliedResources: procset Puzzles 0 0'',
      Text ''%%EndComments'',
      Text ''%%BeginProlog'',
      Text ''%%BeginResource: procset Puzzles 0 0'',
      Text ''/ctshow {'',
      Text ''  3 1 roll'',
      Text ''  newpath 0 0 moveto (X) true charpath flattenpath pathbbox'',
      Text ''  3 -1 roll add 2 div 3 1 roll pop pop sub moveto'',
      Text ''  dup stringwidth pop 0.5 mul neg 0 rmoveto show'',
      Text ''} bind def'',
      Text ''%%EndResource'',
      Text ''%%EndProlog'',
      Text ''%%BeginSetup'',
      Text ''%%IncludeResource: font Helvetica'',
      Text ''%%EndSetup'']"

text \<open>
  The script from the computation of \<open>ppp\<close> on, with the lines of standard input
  already in \<open>ids\<close>. The division is Python 2's integer division.
\<close>

definition run :: "formatter \<Rightarrow> int \<Rightarrow> int \<Rightarrow> string list \<Rightarrow> out list \<times> status" where
  "run f xx yy ids =
     (let ppp = xx * yy
      in if ppp = 0 then ([], Traceback ZeroDivisionError)
         else
           (let pages = (int (length ids) + ppp - 1) div ppp
            in case do_pages f xx yy ids 0 [1..pages] of
                 (body, None) \<Rightarrow> (preamble pages @ body, Hang)
               | (body, Some (Inl e)) \<Rightarrow> (preamble pages @ body, Traceback e)
               | (body, Some (Inr idx)) \<Rightarrow> (preamble pages @ body @ [Text ''%%EOF''], Exit 0)))"

text \<open>
  The whole script: \<open>argv\<close> is \<open>sys.argv\<close>, \<open>inp\<close> the contents of standard
  input. The messages on standard error are left out.
\<close>

definition main :: "string list \<Rightarrow> string \<Rightarrow> out list \<times> status" where
  "main argv inp =
     (if length argv < 3 then ([], Exit 1)
      else (case formatters (argv ! 1) of
              None \<Rightarrow> ([], Exit 1)
            | Some formatter \<Rightarrow>
                (let parts = map atoi (split (argv ! 2) CHR ''x'');
                     format = (if None \<in> set parts then [] else map the parts)
                 in if length format \<noteq> 2 then ([], Exit 1)
                    else run formatter (format ! 0) (format ! 1) (read_ids inp []))))"

section \<open>What the positioning lines compute\<close>

text \<open>
  A PostScript interpreter for the operators of the positioning lines. The state is
  the operand stack (top first), the place of the origin of user space on the page,
  and whether the current path is the clip path. \<open>clip\<close> is the bounding box of the
  clip path on the page: \<open>(llx, lly, urx, ury)\<close>. Arithmetic is exact.
\<close>

record ps_state =
  stack :: "rat list"
  origin :: "rat \<times> rat"
  path_is_clip :: bool

fun ps_step :: "rat \<times> rat \<times> rat \<times> rat \<Rightarrow> pstok \<Rightarrow> ps_state \<Rightarrow> ps_state option" where
  "ps_step clip (Num r) s = Some (s\<lparr>stack := r # stack s\<rparr>)"
| "ps_step clip (Op Gsave) s = Some s"
| "ps_step clip (Op Clippath) s = Some (s\<lparr>path_is_clip := True\<rparr>)"
| "ps_step clip (Op Flattenpath) s = Some s"
| "ps_step (llx, lly, urx, ury) (Op Pathbbox) s =
     (if path_is_clip s
      then (case origin s of (ox, oy) \<Rightarrow>
              Some (s\<lparr>stack := (ury - oy) # (urx - ox) # (lly - oy) # (llx - ox) # stack s\<rparr>))
      else None)"
| "ps_step clip (Op Pop) s =
     (case stack s of a # rest \<Rightarrow> Some (s\<lparr>stack := rest\<rparr>) | _ \<Rightarrow> None)"
| "ps_step clip (Op Exch) s =
     (case stack s of b # a # rest \<Rightarrow> Some (s\<lparr>stack := a # b # rest\<rparr>) | _ \<Rightarrow> None)"
| "ps_step clip (Op Sub) s =
     (case stack s of b # a # rest \<Rightarrow> Some (s\<lparr>stack := (a - b) # rest\<rparr>) | _ \<Rightarrow> None)"
| "ps_step clip (Op Add) s =
     (case stack s of b # a # rest \<Rightarrow> Some (s\<lparr>stack := (a + b) # rest\<rparr>) | _ \<Rightarrow> None)"
| "ps_step clip (Op Mul) s =
     (case stack s of b # a # rest \<Rightarrow> Some (s\<lparr>stack := (a * b) # rest\<rparr>) | _ \<Rightarrow> None)"
| "ps_step clip (Op Div) s =
     (case stack s of
        b # a # rest \<Rightarrow> if b = 0 then None else Some (s\<lparr>stack := (a / b) # rest\<rparr>)
      | _ \<Rightarrow> None)"
| "ps_step clip (Op Roll) s =
     (case stack s of
        j # n # rest \<Rightarrow>
          if 0 \<le> j \<and> j \<le> n \<and> n = of_int \<lfloor>n\<rfloor> \<and> j = of_int \<lfloor>j\<rfloor> \<and> nat \<lfloor>n\<rfloor> \<le> length rest
          then Some (s\<lparr>stack := drop (nat \<lfloor>j\<rfloor>) (take (nat \<lfloor>n\<rfloor>) rest)
                                  @ take (nat \<lfloor>j\<rfloor>) rest @ drop (nat \<lfloor>n\<rfloor>) rest\<rparr>)
          else None
      | _ \<Rightarrow> None)"
| "ps_step clip (Op Translate) s =
     (case stack s of
        ty # tx # rest \<Rightarrow>
          (case origin s of (ox, oy) \<Rightarrow> Some (s\<lparr>stack := rest, origin := (ox + tx, oy + ty)\<rparr>))
      | _ \<Rightarrow> None)"
| "ps_step clip _ s = None"

fun ps_run :: "rat \<times> rat \<times> rat \<times> rat \<Rightarrow> pstok list \<Rightarrow> ps_state \<Rightarrow> ps_state option" where
  "ps_run clip [] s = Some s"
| "ps_run clip (t # ts) s =
     (case ps_step clip t s of None \<Rightarrow> None | Some s' \<Rightarrow> ps_run clip ts s')"

text \<open>
  Where the origin of the puzzle in row \<open>y\<close> and column \<open>x\<close> lands on the page,
  in page coordinates.
\<close>

definition cell_origin ::
  "rat \<times> rat \<times> rat \<times> rat \<Rightarrow> int \<Rightarrow> int \<Rightarrow> page_state \<Rightarrow> nat \<Rightarrow> nat \<Rightarrow> (rat \<times> rat) option" where
  "cell_origin clip xx yy st y x =
     map_option origin
       (ps_run clip (concat (position_lines xx yy st y x))
          \<lparr>stack = [], origin = (0, 0), path_is_clip = False\<rparr>)"

text \<open>
  The layout that results, measured on the page. The columns and rows of a page keep
  an envelope each: \<open>lrbound\<close> and \<open>tbbound\<close> hold how far the puzzles of a
  column (row) reach to the left and right (above and below) of their origin. The
  edges of the envelope of the column and row of a cell follow from where the origin
  of the cell lands. The gutter is the space left over on an axis, divided as the
  positioning lines divide it.
\<close>

definition page_width :: "rat \<times> rat \<times> rat \<times> rat \<Rightarrow> rat" where
  "page_width clip = (case clip of (llx, lly, urx, ury) \<Rightarrow> urx - llx)"

definition page_height :: "rat \<times> rat \<times> rat \<times> rat \<Rightarrow> rat" where
  "page_height clip = (case clip of (llx, lly, urx, ury) \<Rightarrow> ury - lly)"

definition gutter_x :: "rat \<times> rat \<times> rat \<times> rat \<Rightarrow> int \<Rightarrow> page_state \<Rightarrow> rat" where
  "gutter_x clip xx st = (page_width clip - of_int (total (lrbound st))) / of_int (xx + 1)"

definition gutter_y :: "rat \<times> rat \<times> rat \<times> rat \<Rightarrow> int \<Rightarrow> page_state \<Rightarrow> rat" where
  "gutter_y clip yy st = (page_height clip - of_int (total (tbbound st))) / of_int (yy + 1)"

definition left_edge ::
  "rat \<times> rat \<times> rat \<times> rat \<Rightarrow> int \<Rightarrow> int \<Rightarrow> page_state \<Rightarrow> nat \<Rightarrow> nat \<Rightarrow> rat option" where
  "left_edge clip xx yy st y x =
     map_option (\<lambda>(X, Y). X - of_int (fst (lrbound st ! x))) (cell_origin clip xx yy st y x)"

definition right_edge ::
  "rat \<times> rat \<times> rat \<times> rat \<Rightarrow> int \<Rightarrow> int \<Rightarrow> page_state \<Rightarrow> nat \<Rightarrow> nat \<Rightarrow> rat option" where
  "right_edge clip xx yy st y x =
     map_option (\<lambda>(X, Y). X + of_int (snd (lrbound st ! x))) (cell_origin clip xx yy st y x)"

definition top_edge ::
  "rat \<times> rat \<times> rat \<times> rat \<Rightarrow> int \<Rightarrow> int \<Rightarrow> page_state \<Rightarrow> nat \<Rightarrow> nat \<Rightarrow> rat option" where
  "top_edge clip xx yy st y x =
     map_option (\<lambda>(X, Y). Y + of_int (fst (tbbound st ! y))) (cell_origin clip xx yy st y x)"

definition bottom_edge ::
  "rat \<times> rat \<times> rat \<times> rat \<Rightarrow> int \<Rightarrow> int \<Rightarrow> page_state \<Rightarrow> nat \<Rightarrow> nat \<Rightarrow> rat option" where
  "bottom_edge clip xx yy st y x =
     map_option (\<lambda>(X, Y). Y - of_int (snd (tbbound st ! y))) (cell_origin clip xx yy st y x)"

text \<open>The columns and the rows of a page that hold at least one puzzle.\<close>

definition occupied_columns :: "int \<Rightarrow> int \<Rightarrow> page_state \<Rightarrow> nat" where
  "occupied_columns xx yy st =
     length (filter (\<lambda>x. list_ex (\<lambda>y. fragments st ! y ! x \<noteq> []) [0..<nat yy]) [0..<nat xx])"

definition occupied_rows :: "int \<Rightarrow> int \<Rightarrow> page_state \<Rightarrow> nat" where
  "occupied_rows xx yy st =
     length (filter (\<lambda>y. list_ex (\<lambda>x. fragments st ! y ! x \<noteq> []) [0..<nat xx]) [0..<nat yy])"

text \<open>The \<open>%%Page:\<close> comments in the output mark the pages.\<close>

definition is_page_marker :: "out \<Rightarrow> bool" where
  "is_page_marker l = (case l of Text t \<Rightarrow> take 8 t = ''%%Page: '' | Toks ts \<Rightarrow> False)"

section \<open>What a fragment paints, and in which order\<close>

text \<open>
  To read the order of drawing off a fragment, its tokens are run through the part of
  PostScript that decides what is painted with which pen: the operand stack, the
  current line width, the current path (the number of its segments and whether it
  has been closed), and the graphics states kept by \<open>gsave\<close>. \<open>stroke\<close>,
  \<open>fill\<close> and \<open>ctshow\<close> paint; each of them adds an event. An operator that
  finds too few operands takes what there is. The line width starts at 1, the
  default of PostScript.
\<close>

datatype event = Strokes rat bool nat | Fills | Shows string

record paint_state =
  ostack :: "pstok list"
  lw :: rat
  segs :: nat
  closed :: bool
  saved :: "(rat \<times> nat \<times> bool) list"
  events :: "event list"

fun paint_op :: "psop \<Rightarrow> paint_state \<Rightarrow> paint_state" where
  "paint_op Newpath s = s\<lparr>segs := 0, closed := False\<rparr>"
| "paint_op Moveto s = s\<lparr>ostack := drop 2 (ostack s)\<rparr>"
| "paint_op Rlineto s = s\<lparr>ostack := drop 2 (ostack s), segs := segs s + 1\<rparr>"
| "paint_op Lineto s = s\<lparr>ostack := drop 2 (ostack s), segs := segs s + 1\<rparr>"
| "paint_op Arc s = s\<lparr>ostack := drop 5 (ostack s), segs := segs s + 1\<rparr>"
| "paint_op Closepath s = s\<lparr>closed := True\<rparr>"
| "paint_op Stroke s =
     s\<lparr>events := events s @ [Strokes (lw s) (closed s) (segs s)], segs := 0, closed := False\<rparr>"
| "paint_op Fill s = s\<lparr>events := events s @ [Fills], segs := 0, closed := False\<rparr>"
| "paint_op Setlinewidth s =
     (case ostack s of
        Num w # rest \<Rightarrow> s\<lparr>ostack := rest, lw := w\<rparr>
      | _ \<Rightarrow> s\<lparr>ostack := drop 1 (ostack s)\<rparr>)"
| "paint_op Setlinecap s = s\<lparr>ostack := drop 1 (ostack s)\<rparr>"
| "paint_op Setgray s = s\<lparr>ostack := drop 1 (ostack s)\<rparr>"
| "paint_op Translate s = s\<lparr>ostack := drop 2 (ostack s)\<rparr>"
| "paint_op Scale s = s\<lparr>ostack := drop 2 (ostack s)\<rparr>"
| "paint_op Dup s = s\<lparr>ostack := take 1 (ostack s) @ ostack s\<rparr>"
| "paint_op Findfont s = s"
| "paint_op Scalefont s = s\<lparr>ostack := drop 1 (ostack s)\<rparr>"
| "paint_op Setfont s = s\<lparr>ostack := drop 1 (ostack s)\<rparr>"
| "paint_op Ctshow s =
     (case ostack s of
        Str label # rest \<Rightarrow>
          s\<lparr>ostack := drop 2 rest, events := events s @ [Shows label],
             segs := 0, closed := False\<rparr>
      | _ \<Rightarrow> s\<lparr>ostack := drop 3 (ostack s), events := events s @ [Shows []],
                segs := 0, closed := False\<rparr>)"
| "paint_op Gsave s = s\<lparr>saved := (lw s, segs s, closed s) # saved s\<rparr>"
| "paint_op Grestore s =
     (case saved s of
        (w, n, c) # rest \<Rightarrow> s\<lparr>lw := w, segs := n, closed := c, saved := rest\<rparr>
      | [] \<Rightarrow> s)"
| "paint_op _ s = s"

fun paint_step :: "pstok \<Rightarrow> paint_state \<Rightarrow> paint_state" where
  "paint_step (Op f) s = paint_op f s"
| "paint_step t s = s\<lparr>ostack := t # ostack s\<rparr>"

definition paint_line :: "psline \<Rightarrow> paint_state \<Rightarrow> paint_state" where
  "paint_line l s = fold paint_step l s"

definition paint_start :: paint_state where
  "paint_start = \<lparr>ostack = [], lw = 1, segs = 0, closed = False, saved = [], events = []\<rparr>"

definition paint :: "fragment \<Rightarrow> event list" where
  "paint frag = events (fold paint_line frag paint_start)"

text \<open>
  The order of C8, read off the events: the fragment first strokes open paths (the
  internal grid lines), each batch with a wider pen than the batch before, then
  strokes a closed path (the border) with a pen wider than all of them; whatever
  else it paints comes after that.
\<close>

fun leading_open :: "event list \<Rightarrow> rat list \<times> event list" where
  "leading_open (Strokes w False n # es) =
     (case leading_open es of (ws, rest) \<Rightarrow> (w # ws, rest))"
| "leading_open es = ([], es)"

definition lines_border_decorations :: "event list \<Rightarrow> bool" where
  "lines_border_decorations es =
     (case leading_open es of
        (ws, Strokes bw True n # rest) \<Rightarrow>
          ws \<noteq> [] \<and> sorted_wrt (<) ws \<and> list_all (\<lambda>w. w < bw) ws
      | _ \<Rightarrow> False)"

section \<open>Facts about the decoders\<close>

lemmas eval_defs =
  split_descriptor_def parse_dims_def atoi_def atoi16_def isspace_def isdigit_def digits_def
  decimal_value_def digit_value_def ord_def lowercase_def seed_loop.simps

text \<open>A loop body that gives back the seed and the state it was given never ends.\<close>

lemma seed_loop_stuck:
  assumes "seed \<noteq> []" "body seed st = Inr (seed, st)"
  shows "seed_loop body seed st = None"
proof (cases "seed_loop body seed st")
  case None then show ?thesis .
next
  case (Some r)
  have "seed \<noteq> [] \<longrightarrow> body seed st \<noteq> Inr (seed, st)"
    by (rule seed_loop.raw_induct
          [where P = "\<lambda>b s t r. s \<noteq> [] \<longrightarrow> b s t \<noteq> Inr (s, t)", OF _ Some])
       (auto split: if_splits sum.splits)
  with assms show ?thesis by simp
qed

lemma parse_dims_Inr:
  "parse_dims p = Inr (w, h) \<longleftrightarrow>
     (\<exists>a b. split p CHR ''x'' = [a, b] \<and> atoi a = Some w \<and> atoi b = Some h)"
proof (cases "split p CHR ''x''")
  case Nil
  then show ?thesis by (simp add: parse_dims_def)
next
  case outer: (Cons a as)
  show ?thesis
  proof (cases as)
    case Nil
    with outer show ?thesis by (simp add: parse_dims_def split: option.splits)
  next
    case mid: (Cons b bs)
    show ?thesis
    proof (cases bs)
      case Nil
      with outer mid show ?thesis by (auto simp: parse_dims_def split: option.splits)
    next
      case (Cons c cs)
      with outer mid show ?thesis by (simp add: parse_dims_def split: option.splits)
    qed
  qed
qed

lemma parse_dims_Inl: "parse_dims p = Inl e \<Longrightarrow> e = ValueError"
  unfolding parse_dims_def
  by (simp split: list.splits option.splits)

lemma parse_dims_rejects:
  assumes "\<not> (\<exists>a b w h. split p CHR ''x'' = [a, b] \<and> atoi a = Some w \<and> atoi b = Some h)"
  shows "parse_dims p = Inl ValueError"
proof (cases "parse_dims p")
  case (Inl e)
  then show ?thesis using parse_dims_Inl by blast
next
  case (Inr wh)
  then obtain w h where "parse_dims p = Inr (w, h)" by (cases wh) simp
  then have "\<exists>a b. split p CHR ''x'' = [a, b] \<and> atoi a = Some w \<and> atoi b = Some h"
    by (simp add: parse_dims_Inr)
  with assms show ?thesis by blast
qed

lemma split_descriptor_Inl: "split_descriptor s = Inl e \<Longrightarrow> e = ValueError"
  unfolding split_descriptor_def
  by (simp split: list.splits)

lemma split_no_sep: "c \<notin> set s \<Longrightarrow> split s c = [s]"
  by (induction s) auto

lemma split_descriptor_no_colon:
  "CHR '':'' \<notin> set s \<Longrightarrow> split_descriptor s = Inl ValueError"
  by (simp add: split_descriptor_def split_no_sep)

text \<open>
  The renderers read \<open>grid[y*w+x]\<close> inside loops over \<open>xrange(h)\<close> and
  \<open>xrange(w)\<close>, after the assertion on the length of the grid: the index is in
  range whenever it is read.
\<close>

lemma cell_index_in_range:
  assumes "0 \<le> x" "x < w" "0 \<le> y" "y < h" "w * h = int (length grid)"
  shows "nat (y * w + x) < length grid"
proof -
  have "y * w + x \<le> (h - 1) * w + x" using assms(2,4) assms(1) by (simp add: mult_right_mono)
  also have "\<dots> < h * w" using assms(2) by (simp add: algebra_simps)
  finally have "y * w + x < int (length grid)" using assms(5) by (simp add: mult.commute)
  moreover have "0 \<le> y * w + x" using assms(1,2,3) by simp
  ultimately show ?thesis by (simp add: nat_less_iff)
qed


lemma rect_decode_cells:
  "rect_decode s = Some (Inr g) \<Longrightarrow>
     \<exists>params seed. split_descriptor s = Inr (params, seed)
       \<and> parse_dims params = Inr (width g, height g)
       \<and> seed_loop rect_seed_body seed [] = Some (Inr (cells g))
       \<and> int (length (cells g)) = width g * height g"
  unfolding rect_decode_def
  apply (simp split: sum.splits option.splits if_splits prod.splits)
  apply auto
  done

lemma net_decode_cells:
  assumes h: "net_decode s = Some (Inr g)"
  shows "\<exists>params seed. split_descriptor s = Inr (params, seed)
       \<and> parse_dims (if params \<noteq> [] \<and> last params = CHR ''w'' then butlast params else params)
           = Inr (width g, height g)
       \<and> seed_loop (net_seed_body (width g)) seed ([], [], [])
           = Some (Inr (cells g, hbarriers g, vbarriers g))
       \<and> int (length (cells g)) = width g * height g"
proof -
  obtain params0 seed where sd: "split_descriptor s = Inr (params0, seed)"
    using h by (cases "split_descriptor s") (auto simp: net_decode_def)
  define params where
    "params = (if params0 \<noteq> [] \<and> last params0 = CHR ''w'' then butlast params0 else params0)"
  obtain w ht where pd: "parse_dims params = Inr (w, ht)"
    using h sd by (cases "parse_dims params") (auto simp: net_decode_def params_def Let_def)
  obtain grid hb vb where
    sl: "seed_loop (net_seed_body w) seed ([], [], []) = Some (Inr (grid, hb, vb))"
    using h sd pd
    by (cases "seed_loop (net_seed_body w) seed ([], [], [])")
       (auto simp: net_decode_def params_def Let_def split: sum.splits)
  have "w * ht = int (length grid) \<and> g = \<lparr>width = w, height = ht, cells = grid,
          wrapping = (params0 \<noteq> [] \<and> last params0 = CHR ''w''), hbarriers = hb, vbarriers = vb\<rparr>"
    using h sd pd sl by (simp add: net_decode_def params_def Let_def split: if_splits)
  then show ?thesis using sd pd sl by (simp add: params_def)
qed

lemma solo_decode_cells:
  "solo_decode s = Some (Inr g) \<Longrightarrow>
     \<exists>params seed. split_descriptor s = Inr (params, seed)
       \<and> parse_dims params = Inr (cols g, rows g)
       \<and> seed_loop solo_seed_body seed [] = Some (Inr (scells g))
       \<and> int (length (scells g)) = (cols g * rows g) * (cols g * rows g)"
  unfolding solo_decode_def Let_def
  apply (simp split: sum.splits option.splits if_splits prod.splits)
  apply auto
  done

lemma slant_decode_cells:
  "slant_decode s = Some (Inr g) \<Longrightarrow>
     \<exists>params seed. split_descriptor s = Inr (params, seed)
       \<and> parse_dims params = Inr (width g, height g)
       \<and> seed_loop slant_seed_body seed [] = Some (Inr (cells g))
       \<and> int (length (cells g)) = (width g + 1) * (height g + 1)"
  unfolding slant_decode_def Let_def
  apply (simp split: sum.splits option.splits if_splits prod.splits)
  apply auto
  done

lemma lightup_decode_cells:
  "lightup_decode s = Some (Inr g) \<Longrightarrow>
     \<exists>params seed. split_descriptor s = Inr (params, seed)
       \<and> parse_dims params = Inr (width g, height g)
       \<and> seed_loop lightup_seed_body seed [] = Some (Inr (cells g))
       \<and> int (length (cells g)) = width g * height g"
  unfolding lightup_decode_def Let_def
  apply (simp split: sum.splits option.splits if_splits prod.splits)
  apply auto
  done

lemma dominosa_decode_cells:
  "dominosa_decode s = Some (Inr g) \<Longrightarrow>
     \<exists>params seed n. split_descriptor s = Inr (params, seed)
       \<and> atoi params = Some n \<and> width g = n + 2 \<and> height g = n + 1
       \<and> seed_loop dominosa_seed_body seed [] = Some (Inr (cells g))
       \<and> int (length (cells g)) = width g * height g"
  unfolding dominosa_decode_def Let_def
  apply (simp split: sum.splits option.splits if_splits prod.splits)
  apply auto
  done

lemma pattern_decode_groups:
  "pattern_decode s = Some (Inr g) \<Longrightarrow>
     \<exists>params seed. split_descriptor s = Inr (params, seed)
       \<and> parse_dims params = Inr (pwidth g, pheight g)
       \<and> rowdata g = map (\<lambda>s. split s CHR ''.'') (split seed CHR ''/'')
       \<and> int (length (rowdata g)) = pwidth g + pheight g"
  unfolding pattern_decode_def Let_def
  apply (simp split: sum.splits option.splits if_splits prod.splits)
  apply auto
  done

text \<open>
  C2, as the code has it. A descriptor that decodes has as many cells as the
  assertion of its formatter asks for, computed from the numbers parsed from the
  parameter section: \<open>w * h\<close> for Rectangles, Net and Light Up;
  \<open>(c * r) * (c * r)\<close> for Solo, whose parameters are the block dimensions;
  \<open>(w + 1) * (h + 1)\<close> for Slant, whose clues sit on the grid points;
  \<open>(n + 2) * (n + 1)\<close> for Dominosa, whose parameter is the one number \<open>n\<close>.
  Pattern has no cells: its seed has \<open>w + h\<close> groups of numbers. A seed whose loop
  ends with another number of cells fails the assertion.
\<close>

theorem decoded_cell_counts:
  "(rect_decode s = Some (Inr g) \<longrightarrow>
      (\<exists>params seed. split_descriptor s = Inr (params, seed)
         \<and> parse_dims params = Inr (width g, height g))
      \<and> int (length (cells g)) = width g * height g)
   \<and> (net_decode s = Some (Inr gn) \<longrightarrow>
      (\<exists>params seed. split_descriptor s = Inr (params, seed)
         \<and> parse_dims (if params \<noteq> [] \<and> last params = CHR ''w'' then butlast params else params)
             = Inr (width gn, height gn))
      \<and> int (length (cells gn)) = width gn * height gn)
   \<and> (lightup_decode s = Some (Inr g) \<longrightarrow>
      (\<exists>params seed. split_descriptor s = Inr (params, seed)
         \<and> parse_dims params = Inr (width g, height g))
      \<and> int (length (cells g)) = width g * height g)
   \<and> (solo_decode s = Some (Inr gs) \<longrightarrow>
      (\<exists>params seed. split_descriptor s = Inr (params, seed)
         \<and> parse_dims params = Inr (cols gs, rows gs))
      \<and> int (length (scells gs)) = (cols gs * rows gs) * (cols gs * rows gs))
   \<and> (slant_decode s = Some (Inr g) \<longrightarrow>
      (\<exists>params seed. split_descriptor s = Inr (params, seed)
         \<and> parse_dims params = Inr (width g, height g))
      \<and> int (length (cells g)) = (width g + 1) * (height g + 1))
   \<and> (dominosa_decode s = Some (Inr g) \<longrightarrow>
      (\<exists>params seed n. split_descriptor s = Inr (params, seed)
         \<and> atoi params = Some n \<and> width g = n + 2 \<and> height g = n + 1)
      \<and> int (length (cells g)) = width g * height g)
   \<and> (pattern_decode s = Some (Inr gp) \<longrightarrow>
      (\<exists>params seed. split_descriptor s = Inr (params, seed)
         \<and> parse_dims params = Inr (pwidth gp, pheight gp))
      \<and> int (length (rowdata gp)) = pwidth gp + pheight gp)
   \<and> (split_descriptor s = Inr (params, seed) \<and> parse_dims params = Inr (w, h) \<longrightarrow>
        (seed_loop rect_seed_body seed [] = Some (Inr grid) \<and> int (length grid) \<noteq> w * h
           \<longrightarrow> rect_decode s = Some (Inl AssertionError))
      \<and> (seed_loop lightup_seed_body seed [] = Some (Inr grid) \<and> int (length grid) \<noteq> w * h
           \<longrightarrow> lightup_decode s = Some (Inl AssertionError))
      \<and> (seed_loop solo_seed_body seed [] = Some (Inr grid)
           \<and> int (length grid) \<noteq> (w * h) * (w * h)
           \<longrightarrow> solo_decode s = Some (Inl AssertionError))
      \<and> (seed_loop slant_seed_body seed [] = Some (Inr grid)
           \<and> int (length grid) \<noteq> (w + 1) * (h + 1)
           \<longrightarrow> slant_decode s = Some (Inl AssertionError))
      \<and> (int (length (split seed CHR ''/'')) \<noteq> w + h
           \<longrightarrow> pattern_decode s = Some (Inl AssertionError)))
   \<and> (split_descriptor s = Inr (params, seed)
        \<and> parse_dims (if params \<noteq> [] \<and> last params = CHR ''w'' then butlast params else params)
            = Inr (w, h)
        \<and> seed_loop (net_seed_body w) seed ([], [], []) = Some (Inr (grid, hb, vb))
        \<and> int (length grid) \<noteq> w * h
        \<longrightarrow> net_decode s = Some (Inl AssertionError))
   \<and> (split_descriptor s = Inr (params, seed) \<and> atoi params = Some n
        \<and> seed_loop dominosa_seed_body seed [] = Some (Inr grid)
        \<and> int (length grid) \<noteq> (n + 2) * (n + 1)
        \<longrightarrow> dominosa_decode s = Some (Inl AssertionError))"
proof -
  have 1: "rect_decode s = Some (Inr g) \<longrightarrow>
      (\<exists>params seed. split_descriptor s = Inr (params, seed)
         \<and> parse_dims params = Inr (width g, height g))
      \<and> int (length (cells g)) = width g * height g"
    using rect_decode_cells [of s g] by blast
  have 2: "net_decode s = Some (Inr gn) \<longrightarrow>
      (\<exists>params seed. split_descriptor s = Inr (params, seed)
         \<and> parse_dims (if params \<noteq> [] \<and> last params = CHR ''w'' then butlast params else params)
             = Inr (width gn, height gn))
      \<and> int (length (cells gn)) = width gn * height gn"
    using net_decode_cells [of s gn] by blast
  have 3: "lightup_decode s = Some (Inr g) \<longrightarrow>
      (\<exists>params seed. split_descriptor s = Inr (params, seed)
         \<and> parse_dims params = Inr (width g, height g))
      \<and> int (length (cells g)) = width g * height g"
    using lightup_decode_cells [of s g] by blast
  have 4: "solo_decode s = Some (Inr gs) \<longrightarrow>
      (\<exists>params seed. split_descriptor s = Inr (params, seed)
         \<and> parse_dims params = Inr (cols gs, rows gs))
      \<and> int (length (scells gs)) = (cols gs * rows gs) * (cols gs * rows gs)"
    using solo_decode_cells [of s gs] by blast
  have 5: "slant_decode s = Some (Inr g) \<longrightarrow>
      (\<exists>params seed. split_descriptor s = Inr (params, seed)
         \<and> parse_dims params = Inr (width g, height g))
      \<and> int (length (cells g)) = (width g + 1) * (height g + 1)"
    using slant_decode_cells [of s g] by blast
  have 6: "dominosa_decode s = Some (Inr g) \<longrightarrow>
      (\<exists>params seed n. split_descriptor s = Inr (params, seed)
         \<and> atoi params = Some n \<and> width g = n + 2 \<and> height g = n + 1)
      \<and> int (length (cells g)) = width g * height g"
    using dominosa_decode_cells [of s g] by blast
  have 7: "pattern_decode s = Some (Inr gp) \<longrightarrow>
      (\<exists>params seed. split_descriptor s = Inr (params, seed)
         \<and> parse_dims params = Inr (pwidth gp, pheight gp))
      \<and> int (length (rowdata gp)) = pwidth gp + pheight gp"
    using pattern_decode_groups [of s gp] by blast
  have 8: "split_descriptor s = Inr (params, seed) \<and> parse_dims params = Inr (w, h) \<longrightarrow>
        (seed_loop rect_seed_body seed [] = Some (Inr grid) \<and> int (length grid) \<noteq> w * h
           \<longrightarrow> rect_decode s = Some (Inl AssertionError))
      \<and> (seed_loop lightup_seed_body seed [] = Some (Inr grid) \<and> int (length grid) \<noteq> w * h
           \<longrightarrow> lightup_decode s = Some (Inl AssertionError))
      \<and> (seed_loop solo_seed_body seed [] = Some (Inr grid)
           \<and> int (length grid) \<noteq> (w * h) * (w * h)
           \<longrightarrow> solo_decode s = Some (Inl AssertionError))
      \<and> (seed_loop slant_seed_body seed [] = Some (Inr grid)
           \<and> int (length grid) \<noteq> (w + 1) * (h + 1)
           \<longrightarrow> slant_decode s = Some (Inl AssertionError))
      \<and> (int (length (split seed CHR ''/'')) \<noteq> w + h
           \<longrightarrow> pattern_decode s = Some (Inl AssertionError))"
    by (auto simp: rect_decode_def lightup_decode_def solo_decode_def slant_decode_def
          pattern_decode_def Let_def)
  have 9: "split_descriptor s = Inr (params, seed)
        \<and> parse_dims (if params \<noteq> [] \<and> last params = CHR ''w'' then butlast params else params)
            = Inr (w, h)
        \<and> seed_loop (net_seed_body w) seed ([], [], []) = Some (Inr (grid, hb, vb))
        \<and> int (length grid) \<noteq> w * h
        \<longrightarrow> net_decode s = Some (Inl AssertionError)"
    by (auto simp: net_decode_def Let_def)
  have 10: "split_descriptor s = Inr (params, seed) \<and> atoi params = Some n
        \<and> seed_loop dominosa_seed_body seed [] = Some (Inr grid)
        \<and> int (length grid) \<noteq> (n + 2) * (n + 1)
        \<longrightarrow> dominosa_decode s = Some (Inl AssertionError)"
    by (auto simp: dominosa_decode_def Let_def)
  show ?thesis
    using 1 2 3 4 5 6 7 8 9 10 by blast
qed

theorem decoded_cell_counts_witness:
  "rect_decode ''2x1:1_2'' = Some (Inr \<lparr>width = 2, height = 1, cells = [1, 2]\<rparr>)
   \<and> int (length [1 :: int, 2]) = 2 * 1
   \<and> net_decode ''2x1:1h2''
       = Some (Inr \<lparr>width = 2, height = 1, cells = [1, 2], wrapping = False,
                     hbarriers = [(0, 1)], vbarriers = []\<rparr>)
   \<and> lightup_decode ''2x1:B1'' = Some (Inr \<lparr>width = 2, height = 1, cells = [- 1, 1]\<rparr>)
   \<and> solo_decode ''2x2:p'' = Some (Inr \<lparr>cols = 2, rows = 2, scells = replicate 16 (- 1)\<rparr>)
   \<and> int (length (replicate 16 (- 1 :: int))) = (2 * 2) * (2 * 2)
   \<and> slant_decode ''1x1:d'' = Some (Inr \<lparr>width = 1, height = 1, cells = [- 1, - 1, - 1, - 1]\<rparr>)
   \<and> int (length [- 1 :: int, - 1, - 1, - 1]) = (1 + 1) * (1 + 1)
   \<and> dominosa_decode ''1:001011''
       = Some (Inr \<lparr>width = 3, height = 2, cells = [0, 0, 1, 0, 1, 1]\<rparr>)
   \<and> int (length [0 :: int, 0, 1, 0, 1, 1]) = 3 * 2
   \<and> pattern_decode ''2x1:1.2/3/''
       = Some (Inr \<lparr>pwidth = 2, pheight = 1, rowdata = [[''1'', ''2''], [''3''], ['''']]\<rparr>)
   \<and> int (length [[''1'', ''2''], [''3''], ['''']]) = 2 + 1
   \<and> seed_loop rect_seed_body ''a'' [] = Some (Inr [- 1])
   \<and> rect_decode ''2x2:a'' = Some (Inl AssertionError)
   \<and> seed_loop slant_seed_body ''a'' [] = Some (Inr [- 1])
   \<and> slant_decode ''2x2:a'' = Some (Inl AssertionError)"
proof -
  have a: "rect_decode ''2x1:1_2'' = Some (Inr \<lparr>width = 2, height = 1, cells = [1, 2]\<rparr>)"
    by (simp add: rect_decode_def rect_seed_body_def eval_defs)
  have b: "solo_decode ''2x2:p'' = Some (Inr \<lparr>cols = 2, rows = 2, scells = replicate 16 (- 1)\<rparr>)"
    by (simp add: solo_decode_def solo_seed_body_def eval_defs)
  have c: "slant_decode ''1x1:d'' = Some (Inr \<lparr>width = 1, height = 1, cells = [- 1, - 1, - 1, - 1]\<rparr>)"
    by (simp add: slant_decode_def slant_seed_body_def eval_defs eval_nat_numeral)
  have d: "split_descriptor ''2x2:a'' = Inr (''2x2'', ''a'')" "parse_dims ''2x2'' = Inr (2, 2)"
    "seed_loop rect_seed_body ''a'' [] = Some (Inr [- 1])"
    "seed_loop slant_seed_body ''a'' [] = Some (Inr [- 1])"
    by (simp_all add: rect_seed_body_def slant_seed_body_def eval_defs)
  have e: "net_decode ''2x1:1h2''
       = Some (Inr \<lparr>width = 2, height = 1, cells = [1, 2], wrapping = False,
                     hbarriers = [(0, 1)], vbarriers = []\<rparr>)"
    by (simp add: net_decode_def net_seed_body_def eval_defs)
  have f: "lightup_decode ''2x1:B1'' = Some (Inr \<lparr>width = 2, height = 1, cells = [- 1, 1]\<rparr>)"
    by (simp add: lightup_decode_def lightup_seed_body_def eval_defs)
  have g: "dominosa_decode ''1:001011''
       = Some (Inr \<lparr>width = 3, height = 2, cells = [0, 0, 1, 0, 1, 1]\<rparr>)"
    by (simp add: dominosa_decode_def dominosa_seed_body_def eval_defs)
  have h: "pattern_decode ''2x1:1.2/3/''
       = Some (Inr \<lparr>pwidth = 2, pheight = 1, rowdata = [[''1'', ''2''], [''3''], ['''']]\<rparr>)"
    by (simp add: pattern_decode_def eval_defs)
  show ?thesis
    using a b c d e f g h
      decoded_cell_counts [where s = "''2x1:1_2''" and g = "\<lparr>width = 2, height = 1, cells = [1, 2]\<rparr>"]
      decoded_cell_counts [where s = "''2x2:p''" and gs = "\<lparr>cols = 2, rows = 2, scells = replicate 16 (- 1)\<rparr>"]
      decoded_cell_counts [where s = "''1x1:d''" and g = "\<lparr>width = 1, height = 1, cells = [- 1, - 1, - 1, - 1]\<rparr>"]
      decoded_cell_counts [where s = "''2x2:a''" and params = "''2x2''" and seed = "''a''"
        and w = 2 and h = 2 and grid = "[- 1]"]
    by simp
qed

text \<open>
  C2 as stated fails: \<open>2x2:p\<close> decodes for Solo with 16 cells, and
  \<open>1x1:d\<close> for Slant with 4, where the product of the two parsed numbers is
  4 and 1.
\<close>

theorem cell_count_is_not_always_width_times_height:
  "solo_decode ''2x2:p'' = Some (Inr \<lparr>cols = 2, rows = 2, scells = replicate 16 (- 1)\<rparr>)
   \<and> length (replicate 16 (- 1 :: int)) \<noteq> 2 * 2
   \<and> slant_decode ''1x1:d'' = Some (Inr \<lparr>width = 1, height = 1, cells = [- 1, - 1, - 1, - 1]\<rparr>)
   \<and> length [- 1 :: int, - 1, - 1, - 1] \<noteq> 1 * 1"
  by (simp add: solo_decode_def solo_seed_body_def slant_decode_def slant_seed_body_def eval_defs
       eval_nat_numeral)

text \<open>
  C7, as the code has it. Rectangles, Pattern, Solo, Slant and Light Up fail with
  \<open>ValueError\<close> whenever the parameter section is not two parts around a single
  \<open>x\<close> that \<open>string.atoi\<close> both accepts; Net does so for what is left of the
  section after one trailing \<open>w\<close>; Dominosa whenever the section is not one number
  that \<open>string.atoi\<close> accepts. The sign of the numbers is not looked at.
\<close>

theorem bad_params_rejected:
  "(split_descriptor s = Inr (params, seed)
      \<and> \<not> (\<exists>a b w h. split params CHR ''x'' = [a, b] \<and> atoi a = Some w \<and> atoi b = Some h)
      \<longrightarrow> rect_decode s = Some (Inl ValueError)
        \<and> pattern_decode s = Some (Inl ValueError)
        \<and> solo_decode s = Some (Inl ValueError)
        \<and> slant_decode s = Some (Inl ValueError)
        \<and> lightup_decode s = Some (Inl ValueError))
   \<and> (split_descriptor s = Inr (params, seed)
      \<and> \<not> (\<exists>a b w h.
             split (if params \<noteq> [] \<and> last params = CHR ''w'' then butlast params else params)
               CHR ''x'' = [a, b]
             \<and> atoi a = Some w \<and> atoi b = Some h)
      \<longrightarrow> net_decode s = Some (Inl ValueError))
   \<and> (split_descriptor s = Inr (params, seed) \<and> atoi params = None
      \<longrightarrow> dominosa_decode s = Some (Inl ValueError))"
proof -
  have a: "rect_decode s = Some (Inl ValueError)
        \<and> pattern_decode s = Some (Inl ValueError)
        \<and> solo_decode s = Some (Inl ValueError)
        \<and> slant_decode s = Some (Inl ValueError)
        \<and> lightup_decode s = Some (Inl ValueError)"
    if "split_descriptor s = Inr (params, seed)"
      "\<not> (\<exists>a b w h. split params CHR ''x'' = [a, b] \<and> atoi a = Some w \<and> atoi b = Some h)"
    using that(1) parse_dims_rejects [OF that(2)]
    by (simp add: rect_decode_def pattern_decode_def solo_decode_def slant_decode_def
          lightup_decode_def)
  have b: "net_decode s = Some (Inl ValueError)"
    if "split_descriptor s = Inr (params, seed)"
      "\<not> (\<exists>a b w h.
             split (if params \<noteq> [] \<and> last params = CHR ''w'' then butlast params else params)
               CHR ''x'' = [a, b]
             \<and> atoi a = Some w \<and> atoi b = Some h)"
    using that(1) parse_dims_rejects [OF that(2)]
    by (simp add: net_decode_def Let_def)
  have c: "dominosa_decode s = Some (Inl ValueError)"
    if "split_descriptor s = Inr (params, seed)" "atoi params = None"
    using that by (simp add: dominosa_decode_def)
  show ?thesis using a b c by blast
qed

theorem bad_params_rejected_witness:
  "split_descriptor ''2y2:a'' = Inr (''2y2'', ''a'')
   \<and> split ''2y2'' CHR ''x'' = [''2y2'']
   \<and> rect_decode ''2y2:a'' = Some (Inl ValueError)
   \<and> net_decode ''2y2:a'' = Some (Inl ValueError)
   \<and> atoi ''2y2'' = None
   \<and> dominosa_decode ''2y2:a'' = Some (Inl ValueError)"
proof -
  have a: "split_descriptor ''2y2:a'' = Inr (''2y2'', ''a'')" "split ''2y2'' CHR ''x'' = [''2y2'']"
    "atoi ''2y2'' = None"
    by (simp_all add: eval_defs)
  show ?thesis
    using a bad_params_rejected [where s = "''2y2:a''" and params = "''2y2''" and seed = "''a''"]
    by simp
qed

text \<open>
  C7 as stated fails: Dominosa decodes \<open>1:001011\<close>, whose parameter section has no
  \<open>x\<close>, and Rectangles decodes \<open>0x0:\<close>, whose numbers are not positive.
\<close>

theorem params_need_not_be_two_positive_integers:
  "dominosa_decode ''1:001011''
     = Some (Inr \<lparr>width = 3, height = 2, cells = [0, 0, 1, 0, 1, 1]\<rparr>)
   \<and> rect_decode ''0x0:'' = Some (Inr \<lparr>width = 0, height = 0, cells = []\<rparr>)"
  by (simp add: dominosa_decode_def dominosa_seed_body_def rect_decode_def eval_defs)

section \<open>Facts about the seed grammar\<close>

lemma underscore_not_lowercase: "CHR ''_'' \<notin> set lowercase"
  by (simp add: lowercase_def)

lemma lowercase_not_digit: "c \<in> set lowercase \<Longrightarrow> c \<notin> set digits"
  by (auto simp: lowercase_def digits_def)

lemma seed_loop_step:
  "seed \<noteq> [] \<Longrightarrow> body seed st = Inr (seed', st')
   \<Longrightarrow> seed_loop body seed st = seed_loop body seed' st'"
  by (subst seed_loop.simps) simp

text \<open>
  C4, as the code has it. In the seed grammar of \<open>rect_format\<close> and
  \<open>solo_format\<close> a lowercase letter \<open>c\<close> appends \<open>ord(c) - ord('a') + 1\<close>
  placeholder cells (\<open>-1\<close>) to the grid. An underscore is consumed and appends
  nothing: it only keeps two adjacent numbers apart.
\<close>

theorem seed_skip_tokens:
  "(c \<in> set lowercase \<longrightarrow>
      rect_seed_body (c # rest) grid
        = Inr (rest, grid @ replicate (nat (ord c - ord CHR ''a'' + 1)) (- 1))
      \<and> solo_seed_body (c # rest) grid
        = Inr (rest, grid @ replicate (nat (ord c - ord CHR ''a'' + 1)) (- 1))
      \<and> seed_loop rect_seed_body (c # rest) grid
        = seed_loop rect_seed_body rest
            (grid @ replicate (nat (ord c - ord CHR ''a'' + 1)) (- 1))
      \<and> seed_loop solo_seed_body (c # rest) grid
        = seed_loop solo_seed_body rest
            (grid @ replicate (nat (ord c - ord CHR ''a'' + 1)) (- 1)))
   \<and> rect_seed_body (CHR ''_'' # rest) grid = Inr (rest, grid)
   \<and> solo_seed_body (CHR ''_'' # rest) grid = Inr (rest, grid)
   \<and> seed_loop rect_seed_body (CHR ''_'' # rest) grid = seed_loop rect_seed_body rest grid
   \<and> seed_loop solo_seed_body (CHR ''_'' # rest) grid = seed_loop solo_seed_body rest grid"
proof -
  have r: "rect_seed_body (c # rest) grid
           = Inr (rest, grid @ replicate (nat (ord c - ord CHR ''a'' + 1)) (- 1))"
    if "c \<in> set lowercase"
    using that by (simp add: rect_seed_body_def)
  have s: "solo_seed_body (c # rest) grid
           = Inr (rest, grid @ replicate (nat (ord c - ord CHR ''a'' + 1)) (- 1))"
    if "c \<in> set lowercase"
    using that by (simp add: solo_seed_body_def)
  have ru: "rect_seed_body (CHR ''_'' # rest) grid = Inr (rest, grid)"
    by (simp add: rect_seed_body_def underscore_not_lowercase)
  have su: "solo_seed_body (CHR ''_'' # rest) grid = Inr (rest, grid)"
    by (simp add: solo_seed_body_def underscore_not_lowercase)
  show ?thesis
    using r s by (simp add: ru su seed_loop_step)
qed

theorem seed_skip_tokens_witness:
  "CHR ''c'' \<in> set lowercase
   \<and> rect_seed_body ''c_7'' [5] = Inr (''_7'', [5, - 1, - 1, - 1])
   \<and> rect_seed_body ''_7'' [5] = Inr (''7'', [5])"
proof -
  have h: "CHR ''c'' \<in> set lowercase" by (simp add: lowercase_def)
  show ?thesis
    using h seed_skip_tokens [of "CHR ''c''" "''_7''" "[5]"] seed_skip_tokens [of "CHR ''c''" "''7''" "[5]"]
    by (simp add: ord_def numeral_3_eq_3)
qed

text \<open>
  C4 as stated fails: after an underscore the grid is as it was, so
  \<open>2x1:1_2\<close> is a grid of two cells, not three.
\<close>

theorem underscore_appends_nothing:
  "rect_seed_body ''_'' [] = Inr ([], [])
   \<and> solo_seed_body ''_'' [] = Inr ([], [])
   \<and> rect_decode ''2x1:1_2'' = Some (Inr \<lparr>width = 2, height = 1, cells = [1, 2]\<rparr>)"
  by (simp add: rect_seed_body_def solo_seed_body_def lowercase_def
      rect_decode_def split_descriptor_def parse_dims_def atoi_def isspace_def isdigit_def digits_def
      decimal_value_def digit_value_def ord_def seed_loop.simps)

section \<open>Facts about the Net symbols\<close>

text \<open>
  C6. Before a Net cell is drawn its code is replaced by the canonical code of its
  rotation class: 1, 2, 4, 8 become 1; 5, 10 become 5; 3, 6, 9, 12 become 9;
  7, 11, 13, 14 become 13. The lines of a cell depend on the code only through its
  canonical form, and canonicalizing twice is canonicalizing once: a canonical code
  is left as it is.
\<close>

theorem net_canon_classes:
  "net_canon 1 = 1 \<and> net_canon 2 = 1 \<and> net_canon 4 = 1 \<and> net_canon 8 = 1
   \<and> net_canon 5 = 5 \<and> net_canon 10 = 5
   \<and> net_canon 3 = 9 \<and> net_canon 6 = 9 \<and> net_canon 9 = 9 \<and> net_canon 12 = 9
   \<and> net_canon 7 = 13 \<and> net_canon 11 = 13 \<and> net_canon 13 = 13 \<and> net_canon 14 = 13
   \<and> net_canon (net_canon v) = net_canon v
   \<and> net_cell w h (grid @ [v] @ post) (int (length grid))
       = net_cell w h (grid @ [net_canon v] @ post) (int (length grid))"
  by (simp add: net_canon_def net_cell_def)

section \<open>Facts about the main program\<close>

lemma fill_row_done:
  "length ids \<le> puzzle_index st \<Longrightarrow> fill_row f ids y xs st = Some (Inr st)"
  by (cases xs) auto

lemma fill_row_index:
  "fill_row f ids y xs st = Some (Inr st') \<Longrightarrow>
     puzzle_index st' = (if length ids \<le> puzzle_index st then puzzle_index st
                         else min (puzzle_index st + length xs) (length ids))"
  by (induction f ids y xs st rule: fill_row.induct)
     (auto split: if_splits option.splits sum.splits prod.splits)

lemma fill_row_frame:
  "fill_row f ids y xs st = Some (Inr st') \<Longrightarrow> y' \<noteq> y
     \<Longrightarrow> fragments st' ! y' = fragments st ! y'"
  by (induction f ids y xs st rule: fill_row.induct)
     (auto split: if_splits option.splits sum.splits prod.splits)

lemma fill_row_unfilled:
  "fill_row f ids y xs st = Some (Inr st') \<Longrightarrow> distinct xs \<Longrightarrow> i < length xs
     \<Longrightarrow> length ids \<le> puzzle_index st + i
     \<Longrightarrow> fragments st' ! y ! (xs ! i) = fragments st ! y ! (xs ! i)"
proof (induction xs arbitrary: st i)
  case Nil
  then show ?case by simp
next
  case (Cons x xs)
  note 2 = Cons
  show ?case
  proof (cases "length ids \<le> puzzle_index st")
    case True
    with 2 show ?thesis by simp
  next
    case False
    then obtain j where i: "i = Suc j" using Cons.prems by (cases i) auto
    from False Cons.prems(1) obtain c0 c1 c2 c3 frag lb rb tb bb where
      f: "f (ids ! puzzle_index st) = Some (Inr ((c0, c1, c2, c3), frag))"
      and lr: "lrbound st ! x = (lb, rb)" and tbb: "tbbound st ! y = (tb, bb)"
      by (auto split: option.splits sum.splits prod.splits)
    let ?st1 = "st\<lparr>fragments := (fragments st)[y := (fragments st ! y)[x := frag]],
                         lrbound := (lrbound st)[x := (max lb c0, max rb c1)],
                         tbbound := (tbbound st)[y := (max tb c2, max bb c3)],
                         puzzle_index := puzzle_index st + 1\<rparr>"
    have run: "fill_row f ids y xs ?st1 = Some (Inr st')"
      using Cons.prems(1) False f lr tbb by simp
    have ne: "xs ! j \<noteq> x" using Cons.prems(2,3) i by auto
    have "fragments st' ! y ! (xs ! j) = fragments ?st1 ! y ! (xs ! j)"
      using Cons.IH [OF run, of j] Cons.prems i by simp
    also have "\<dots> = fragments st ! y ! (xs ! j)"
      using ne by (cases "y < length (fragments st)") (simp_all add: list_update_beyond)
    finally show ?thesis using i by simp
  qed
qed


lemma fill_rows_frame:
  "fill_rows f ids xs ys st = Some (Inr st') \<Longrightarrow> y' \<notin> set ys
     \<Longrightarrow> fragments st' ! y' = fragments st ! y'"
proof (induction ys arbitrary: st)
  case Nil
  then show ?case by simp
next
  case (Cons y ys)
  from Cons.prems(1) obtain st1 where
    r: "fill_row f ids y xs st = Some (Inr st1)" and rs: "fill_rows f ids xs ys st1 = Some (Inr st')"
    by (auto split: option.splits sum.splits)
  have "fragments st' ! y' = fragments st1 ! y'"
    using Cons.IH [OF rs] Cons.prems(2) by simp
  also have "\<dots> = fragments st ! y'"
    using fill_row_frame [OF r, of y'] Cons.prems(2) by simp
  finally show ?case .
qed

lemma fill_rows_unfilled:
  "fill_rows f ids xs ys st = Some (Inr st') \<Longrightarrow> distinct xs \<Longrightarrow> distinct ys
     \<Longrightarrow> i < length xs \<Longrightarrow> j < length ys
     \<Longrightarrow> length ids \<le> puzzle_index st + j * length xs + i
     \<Longrightarrow> fragments st' ! (ys ! j) ! (xs ! i) = fragments st ! (ys ! j) ! (xs ! i)"
proof (induction ys arbitrary: st j)
  case Nil
  then show ?case by simp
next
  case (Cons y ys)
  from Cons.prems(1) obtain st1 where
    r: "fill_row f ids y xs st = Some (Inr st1)" and rs: "fill_rows f ids xs ys st1 = Some (Inr st')"
    by (auto split: option.splits sum.splits)
  show ?case
  proof (cases j)
    case 0
    have "fragments st' ! y = fragments st1 ! y"
      using fill_rows_frame [OF rs, of y] Cons.prems(3) by simp
    moreover have "fragments st1 ! y ! (xs ! i) = fragments st ! y ! (xs ! i)"
      using fill_row_unfilled [OF r Cons.prems(2) Cons.prems(4)] Cons.prems(6) 0 by simp
    ultimately show ?thesis using 0 by simp
  next
    case (Suc k)
    have idx: "length ids \<le> puzzle_index st1 + k * length xs + i"
      using fill_row_index [OF r] Cons.prems(6) Suc by (auto split: if_splits)
    have ne: "ys ! k \<noteq> y" using Cons.prems(3,5) Suc by auto
    have "fragments st' ! (ys ! k) ! (xs ! i) = fragments st1 ! (ys ! k) ! (xs ! i)"
      using Cons.IH [OF rs Cons.prems(2) _ Cons.prems(4) _ idx] Cons.prems(3,5) Suc by simp
    also have "\<dots> = fragments st ! (ys ! k) ! (xs ! i)"
      using fill_row_frame [OF r ne] by simp
    finally show ?thesis using Suc by simp
  qed
qed

lemma unfilled_cell_is_blank:
  assumes "fill_page f xx yy ids idx = Some (Inr st)" "y < nat yy" "x < nat xx"
    "length ids \<le> idx + y * nat xx + x"
  shows "fragments st ! y ! x = []"
proof -
  have "fragments st ! ([0..<nat yy] ! y) ! ([0..<nat xx] ! x)
        = fragments (new_page xx yy idx) ! ([0..<nat yy] ! y) ! ([0..<nat xx] ! x)"
    using assms
    by (intro fill_rows_unfilled [where f = f and ids = ids])
       (simp_all add: fill_page_def new_page_def)
  then show ?thesis using assms(2,3) by (simp add: new_page_def)
qed

lemma ceil_div_aux:
  assumes "0 < (p::int)"
  shows "- ((- k) div p) = (k + p - 1) div p"
proof -
  define q where "q = k div p"
  define r where "r = k mod p"
  have k: "k = q * p + r" by (simp add: q_def r_def)
  have r: "0 \<le> r" "r < p" using assms by (simp_all add: r_def)
  have lhs: "(- k) div p = (if r = 0 then - q else - q - 1)"
    using assms by (simp add: zdiv_zminus1_eq_if q_def r_def)
  have "(k + p - 1) div p = (r + p - 1 + q * p) div p" by (simp add: k algebra_simps)
  also have "\<dots> = q + (r + p - 1) div p" using assms by simp
  also have "(r + p - 1) div p = (if r = 0 then 0 else 1)"
  proof (cases "r = 0")
    case True
    then show ?thesis using assms by (simp add: div_pos_pos_trivial)
  next
    case False
    then have "r + p - 1 = (r - 1) + 1 * p" "0 \<le> r - 1" "r - 1 < p" using r by simp_all
    then have "(r + p - 1) div p = 1 + (r - 1) div p"
      using assms by (metis div_mult_self2 less_irrefl mult.commute)
    then show ?thesis using False \<open>0 \<le> r - 1\<close> \<open>r - 1 < p\<close> by (simp add: div_pos_pos_trivial)
  qed
  finally show ?thesis using lhs by simp
qed

lemma pages_is_ceiling:
  assumes "0 < (p::int)"
  shows "(int k + p - 1) div p = \<lceil>real k / real_of_int p\<rceil>"
proof -
  have "\<lceil>real k / real_of_int p\<rceil> = \<lceil>real_of_int (int k) / real_of_int p\<rceil>" by simp
  also have "\<dots> = - ((- int k) div p)" by (rule ceiling_divide_eq_div)
  also have "\<dots> = (int k + p - 1) div p" by (rule ceil_div_aux [OF assms])
  finally show ?thesis by simp
qed

lemma is_page_marker_simps [simp]:
  "is_page_marker (Toks ts) = False"
  "is_page_marker (Text t) = (take 8 t = ''%%Page: '')"
  by (simp_all add: is_page_marker_def)

lemma is_page_marker_page_marker [simp]: "is_page_marker (page_marker i)"
  by (simp add: page_marker_def)

lemma emit_cell_no_marker: "filter is_page_marker (emit_cell xx yy st y x) = []"
  by (auto simp: emit_cell_def filter_empty_conv)

lemma emit_page_no_marker: "filter is_page_marker (emit_page xx yy st) = []"
  by (simp add: emit_page_def filter_concat emit_cell_no_marker comp_def)

lemma preamble_no_marker: "filter is_page_marker (preamble n) = []"
  by (simp add: preamble_def)

lemma do_pages_markers:
  "do_pages f xx yy ids idx is = (body, Some (Inr idx'))
     \<Longrightarrow> filter is_page_marker body = map page_marker is"
proof (induction "is" arbitrary: idx body)
  case Nil
  then show ?case by simp
next
  case (Cons i "is")
  from Cons.prems obtain st rest where
    fp: "fill_page f xx yy ids idx = Some (Inr st)"
    and dp: "do_pages f xx yy ids (puzzle_index st) is = (rest, Some (Inr idx'))"
    and body: "body = [page_marker i, Text ''save''] @ emit_page xx yy st
                 @ [Text ''restore showpage''] @ rest"
    by (auto split: option.splits sum.splits prod.splits)
  show ?case
    using Cons.IH [OF dp] by (simp add: body emit_page_no_marker)
qed

lemma fill_row_progress:
  assumes "\<forall>j. puzzle_index st \<le> j \<and> j < k \<longrightarrow> (\<exists>r. f (ids ! j) = Some (Inr r))"
    and "k < length ids" "puzzle_index st \<le> k"
    and "f (ids ! k) = bad" "\<forall>r. bad \<noteq> Some (Inr r)"
  shows "if k < puzzle_index st + length xs
         then (bad = None \<longrightarrow> fill_row f ids y xs st = None)
              \<and> (\<forall>e. bad = Some (Inl e) \<longrightarrow> fill_row f ids y xs st = Some (Inl e))
         else (\<exists>st'. fill_row f ids y xs st = Some (Inr st')
                \<and> puzzle_index st' = puzzle_index st + length xs)"
  using assms
proof (induction xs arbitrary: st)
  case Nil
  then show ?case by simp
next
  case (Cons x xs)
  have lt: "\<not> length ids \<le> puzzle_index st" using Cons.prems(2,3) by simp
  show ?case
  proof (cases "puzzle_index st = k")
    case True
    then show ?thesis using Cons.prems(4,5) lt
      by (auto split: option.splits sum.splits)
  next
    case False
    then have "puzzle_index st < k" using Cons.prems(3) by simp
    then obtain c0 c1 c2 c3 frag where
      f: "f (ids ! puzzle_index st) = Some (Inr ((c0, c1, c2, c3), frag))"
      using Cons.prems(1) by (metis order_refl prod_cases3 surj_pair)
    obtain lb rb tb bb where
      lr: "lrbound st ! x = (lb, rb)" and tbb: "tbbound st ! y = (tb, bb)"
      by (metis surj_pair)
    let ?st1 = "st\<lparr>fragments := (fragments st)[y := (fragments st ! y)[x := frag]],
                         lrbound := (lrbound st)[x := (max lb c0, max rb c1)],
                         tbbound := (tbbound st)[y := (max tb c2, max bb c3)],
                         puzzle_index := puzzle_index st + 1\<rparr>"
    have step: "fill_row f ids y (x # xs) st = fill_row f ids y xs ?st1"
      using lt f lr tbb by simp
    have ih: "if k < puzzle_index ?st1 + length xs
         then (bad = None \<longrightarrow> fill_row f ids y xs ?st1 = None)
              \<and> (\<forall>e. bad = Some (Inl e) \<longrightarrow> fill_row f ids y xs ?st1 = Some (Inl e))
         else (\<exists>st'. fill_row f ids y xs ?st1 = Some (Inr st')
                \<and> puzzle_index st' = puzzle_index ?st1 + length xs)"
      using Cons.prems \<open>puzzle_index st < k\<close> by (intro Cons.IH) auto
    show ?thesis using ih unfolding step by (auto split: if_splits)
  qed
qed

lemma fill_rows_progress:
  assumes "\<forall>j. puzzle_index st \<le> j \<and> j < k \<longrightarrow> (\<exists>r. f (ids ! j) = Some (Inr r))"
    and "k < length ids" "puzzle_index st \<le> k"
    and "f (ids ! k) = bad" "\<forall>r. bad \<noteq> Some (Inr r)"
  shows "if k < puzzle_index st + length ys * length xs
         then (bad = None \<longrightarrow> fill_rows f ids xs ys st = None)
              \<and> (\<forall>e. bad = Some (Inl e) \<longrightarrow> fill_rows f ids xs ys st = Some (Inl e))
         else (\<exists>st'. fill_rows f ids xs ys st = Some (Inr st')
                \<and> puzzle_index st' = puzzle_index st + length ys * length xs)"
  using assms
proof (induction ys arbitrary: st)
  case Nil
  then show ?case by simp
next
  case (Cons y ys)
  note row = fill_row_progress [OF Cons.prems, of xs y]
  show ?case
  proof (cases "k < puzzle_index st + length xs")
    case True
    then show ?thesis using row by (auto split: option.splits sum.splits)
  next
    case False
    then obtain st1 where r: "fill_row f ids y xs st = Some (Inr st1)"
      and i1: "puzzle_index st1 = puzzle_index st + length xs"
      using row by auto
    have ih: "if k < puzzle_index st1 + length ys * length xs
         then (bad = None \<longrightarrow> fill_rows f ids xs ys st1 = None)
              \<and> (\<forall>e. bad = Some (Inl e) \<longrightarrow> fill_rows f ids xs ys st1 = Some (Inl e))
         else (\<exists>st'. fill_rows f ids xs ys st1 = Some (Inr st')
                \<and> puzzle_index st' = puzzle_index st1 + length ys * length xs)"
      using Cons.prems False i1 by (intro Cons.IH) auto
    show ?thesis using ih r i1 by (auto simp: algebra_simps split: if_splits)
  qed
qed

lemma do_pages_progress:
  assumes "\<forall>j. idx \<le> j \<and> j < k \<longrightarrow> (\<exists>r. f (ids ! j) = Some (Inr r))"
    and "k < length ids" "idx \<le> k"
    and "f (ids ! k) = bad" "\<forall>r. bad \<noteq> Some (Inr r)"
  shows "if k < idx + length pgs * (nat yy * nat xx)
         then (bad = None \<longrightarrow> snd (do_pages f xx yy ids idx pgs) = None)
              \<and> (\<forall>e. bad = Some (Inl e) \<longrightarrow> snd (do_pages f xx yy ids idx pgs) = Some (Inl e))
         else (\<exists>body. do_pages f xx yy ids idx pgs
                 = (body, Some (Inr (idx + length pgs * (nat yy * nat xx)))))"
  using assms
proof (induction pgs arbitrary: idx)
  case Nil
  then show ?case by simp
next
  case (Cons i pgs)
  have p: "puzzle_index (new_page xx yy idx) = idx" by (simp add: new_page_def)
  note page = fill_rows_progress [where st = "new_page xx yy idx" and xs = "[0..<nat xx]"
      and ys = "[0..<nat yy]" and f = f and ids = ids and k = k and bad = bad, unfolded p,
      OF Cons.prems, folded fill_page_def]
  show ?case
  proof (cases "k < idx + nat yy * nat xx")
    case True
    then show ?thesis using page by (auto split: option.splits sum.splits prod.splits)
  next
    case False
    then obtain st where r: "fill_page f xx yy ids idx = Some (Inr st)"
      and i1: "puzzle_index st = idx + nat yy * nat xx"
      using page by auto
    have ih: "if k < puzzle_index st + length pgs * (nat yy * nat xx)
         then (bad = None \<longrightarrow> snd (do_pages f xx yy ids (puzzle_index st) pgs) = None)
              \<and> (\<forall>e. bad = Some (Inl e)
                    \<longrightarrow> snd (do_pages f xx yy ids (puzzle_index st) pgs) = Some (Inl e))
         else (\<exists>body. do_pages f xx yy ids (puzzle_index st) pgs
                 = (body, Some (Inr (puzzle_index st + length pgs * (nat yy * nat xx)))))"
      using Cons.prems False i1 by (intro Cons.IH) auto
    show ?thesis using ih r i1 by (auto simp: algebra_simps split: if_splits prod.splits)
  qed
qed

lemma pages_cover:
  assumes "0 < (p::int)"
  shows "int k \<le> ((int k + p - 1) div p) * p"
proof -
  have "(int k + p - 1) mod p < p" using assms by simp
  moreover have "int k + p - 1 = ((int k + p - 1) div p) * p + (int k + p - 1) mod p" by simp
  ultimately show ?thesis by linarith
qed

lemma run_failure:
  assumes "0 < xx" "0 < yy"
    and "\<forall>j<k. \<exists>r. f (ids ! j) = Some (Inr r)"
    and "k < length ids"
    and "f (ids ! k) = bad" "\<forall>r. bad \<noteq> Some (Inr r)"
  shows "(bad = None \<longrightarrow> snd (run f xx yy ids) = Hang)
         \<and> (\<forall>e. bad = Some (Inl e) \<longrightarrow> snd (run f xx yy ids) = Traceback e)"
proof -
  define pages where "pages = (int (length ids) + xx * yy - 1) div (xx * yy)"
  have pos: "0 < xx * yy" using assms(1,2) by simp
  have cover: "int (length ids) \<le> pages * (xx * yy)"
    unfolding pages_def by (rule pages_cover [OF pos])
  have "0 \<le> pages" unfolding pages_def using pos by (simp add: pos_imp_zdiv_nonneg_iff)
  then have len: "length [1..pages] = nat pages" by simp
  have "int k < int (nat pages * (nat yy * nat xx))"
    using cover assms(1,2,4) \<open>0 \<le> pages\<close> by (simp add: algebra_simps)
  then have lt: "k < 0 + length [1..pages] * (nat yy * nat xx)"
    unfolding len by linarith
  have dp: "(bad = None \<longrightarrow> snd (do_pages f xx yy ids 0 [1..pages]) = None)
       \<and> (\<forall>e. bad = Some (Inl e) \<longrightarrow> snd (do_pages f xx yy ids 0 [1..pages]) = Some (Inl e))"
    using do_pages_progress [where idx = 0 and k = k and f = f and ids = ids and bad = bad
        and pgs = "[1..pages]" and xx = xx and yy = yy] assms(3,4,5,6) lt
    by simp
  obtain body r where d: "do_pages f xx yy ids 0 [1..pages] = (body, r)" by (cases "do_pages f xx yy ids 0 [1..pages]")
  show ?thesis
    using dp pos d unfolding run_def Let_def pages_def [symmetric]
    by (auto split: option.splits sum.splits)
qed

lemma fill_row_ok:
  assumes "\<forall>j<length ids. \<exists>r. f (ids ! j) = Some (Inr r)"
  shows "\<exists>st'. fill_row f ids y xs st = Some (Inr st')"
proof (induction xs arbitrary: st)
  case Nil
  show ?case by simp
next
  case (Cons x xs)
  show ?case
  proof (cases "length ids \<le> puzzle_index st")
    case True
    then show ?thesis by simp
  next
    case False
    then obtain c0 c1 c2 c3 frag where
      f: "f (ids ! puzzle_index st) = Some (Inr ((c0, c1, c2, c3), frag))"
      using assms by (metis not_le prod_cases3 surj_pair)
    obtain lb rb tb bb where
      lr: "lrbound st ! x = (lb, rb)" and tbb: "tbbound st ! y = (tb, bb)"
      by (metis surj_pair)
    show ?thesis using False f lr tbb Cons.IH by simp
  qed
qed

lemma fill_rows_ok:
  assumes "\<forall>j<length ids. \<exists>r. f (ids ! j) = Some (Inr r)"
  shows "\<exists>st'. fill_rows f ids xs ys st = Some (Inr st')"
proof (induction ys arbitrary: st)
  case Nil
  show ?case by simp
next
  case (Cons y ys)
  obtain st1 where "fill_row f ids y xs st = Some (Inr st1)"
    using fill_row_ok [OF assms] by blast
  then show ?case using Cons.IH [of st1] by simp
qed

lemma do_pages_ok:
  assumes "\<forall>j<length ids. \<exists>r. f (ids ! j) = Some (Inr r)"
  shows "\<exists>body idx'. do_pages f xx yy ids idx pgs = (body, Some (Inr idx'))"
proof (induction pgs arbitrary: idx)
  case Nil
  show ?case by simp
next
  case (Cons i pgs)
  obtain st where fp: "fill_page f xx yy ids idx = Some (Inr st)"
    unfolding fill_page_def using fill_rows_ok [OF assms] by blast
  obtain body idx' where "do_pages f xx yy ids (puzzle_index st) pgs = (body, Some (Inr idx'))"
    using Cons.IH by blast
  then show ?case using fp by simp
qed

lemma run_ok:
  assumes "xx * yy \<noteq> 0" "\<forall>j<length ids. \<exists>r. f (ids ! j) = Some (Inr r)"
  shows "\<exists>outp. run f xx yy ids = (outp, Exit 0)"
proof -
  obtain body idx' where
    "do_pages f xx yy ids 0 [1..(int (length ids) + xx * yy - 1) div (xx * yy)]
       = (body, Some (Inr idx'))"
    using do_pages_ok [OF assms(2)] by blast
  then show ?thesis using assms(1) by (simp add: run_def Let_def)
qed

lemma foldl_plus_sum: "foldl (+) (a::int) xs = a + sum_list xs"
  by (induction xs arbitrary: a) auto

lemma total_sum: "total bs = sum_list (map (\<lambda>(a, b). a + b) bs)"
  by (simp add: total_def foldl_plus_sum)

lemma total_take_Suc:
  "x < length bs \<Longrightarrow> total (take (Suc x) bs) = total (take x bs) + (fst (bs ! x) + snd (bs ! x))"
  by (simp add: total_sum take_Suc_conv_app_nth case_prod_unfold)

lemma total_drop:
  "x < length bs \<Longrightarrow> total (drop x bs) = (fst (bs ! x) + snd (bs ! x)) + total (drop (Suc x) bs)"
  by (simp add: total_sum Cons_nth_drop_Suc [symmetric] case_prod_unfold)

lemma total_split: "total bs = total (take x bs) + total (drop x bs)"
proof -
  have "total bs = total (take x bs @ drop x bs)" by simp
  also have "\<dots> = total (take x bs) + total (drop x bs)"
    unfolding total_sum map_append sum_list_append ..
  finally show ?thesis .
qed

lemma cell_origin_value:
  assumes "xx + 1 \<noteq> 0" "yy + 1 \<noteq> 0"
  shows "cell_origin (llx, lly, urx, ury) xx yy st y x =
     Some (llx + ((urx - llx) - of_int (total (lrbound st))) * of_int (int x + 1) / of_int (xx + 1)
             + of_int (total (take x (lrbound st)) + fst (lrbound st ! x)),
           lly + ((ury - lly) - of_int (total (tbbound st))) * of_int (yy - int y) / of_int (yy + 1)
             + of_int (total (drop (y + 1) (tbbound st)) + snd (tbbound st ! y)))"
  using assms
  by (simp add: cell_origin_def position_lines_def Let_def)

lemma fill_row_lengths:
  "fill_row f ids y xs st = Some (Inr st') \<Longrightarrow>
     length (lrbound st') = length (lrbound st) \<and> length (tbbound st') = length (tbbound st)"
  by (induction f ids y xs st rule: fill_row.induct)
     (auto split: if_splits option.splits sum.splits prod.splits)

lemma fill_rows_lengths:
  "fill_rows f ids xs ys st = Some (Inr st') \<Longrightarrow>
     length (lrbound st') = length (lrbound st) \<and> length (tbbound st') = length (tbbound st)"
proof (induction ys arbitrary: st)
  case Nil
  then show ?case by simp
next
  case (Cons y ys)
  from Cons.prems obtain st1 where
    r: "fill_row f ids y xs st = Some (Inr st1)" and rs: "fill_rows f ids xs ys st1 = Some (Inr st')"
    by (auto split: option.splits sum.splits)
  show ?case using Cons.IH [OF rs] fill_row_lengths [OF r] by simp
qed

lemma fill_page_lengths:
  "fill_page f xx yy ids idx = Some (Inr st) \<Longrightarrow>
     length (lrbound st) = nat xx \<and> length (tbbound st) = nat yy"
  using fill_rows_lengths [of f ids "[0..<nat xx]" "[0..<nat yy]" "new_page xx yy idx" st]
  by (simp add: fill_page_def new_page_def)

lemma left_edge_value:
  assumes "xx + 1 \<noteq> 0" "yy + 1 \<noteq> 0"
  shows "left_edge (llx, lly, urx, ury) xx yy st y c =
     Some (llx + gutter_x (llx, lly, urx, ury) xx st * of_int (int c + 1)
             + of_int (total (take c (lrbound st))))"
  using assms
  by (simp add: left_edge_def cell_origin_value gutter_x_def page_width_def)

lemma right_edge_value:
  assumes "xx + 1 \<noteq> 0" "yy + 1 \<noteq> 0" "c < length (lrbound st)"
  shows "right_edge (llx, lly, urx, ury) xx yy st y c =
     Some (llx + gutter_x (llx, lly, urx, ury) xx st * of_int (int c + 1)
             + of_int (total (take (Suc c) (lrbound st))))"
  using assms
  by (simp add: right_edge_def cell_origin_value gutter_x_def page_width_def total_take_Suc)

lemma bottom_edge_value:
  assumes "xx + 1 \<noteq> 0" "yy + 1 \<noteq> 0"
  shows "bottom_edge (llx, lly, urx, ury) xx yy st r x =
     Some (lly + gutter_y (llx, lly, urx, ury) yy st * of_int (yy - int r)
             + of_int (total (drop (Suc r) (tbbound st))))"
  using assms
  by (simp add: bottom_edge_def cell_origin_value gutter_y_def page_height_def)

lemma top_edge_value:
  assumes "xx + 1 \<noteq> 0" "yy + 1 \<noteq> 0" "r < length (tbbound st)"
  shows "top_edge (llx, lly, urx, ury) xx yy st r x =
     Some (lly + gutter_y (llx, lly, urx, ury) yy st * of_int (yy - int r)
             + of_int (total (drop r (tbbound st))))"
  using assms
  by (simp add: top_edge_def cell_origin_value gutter_y_def page_height_def total_drop [of r])

text \<open>
  C1, as the code has it. On every composed page and on each axis the space that the
  envelopes leave is divided by the number of columns (rows) of the page shape plus
  one, whether or not every column (row) holds a puzzle: with \<open>g\<close> that quotient,
  \<open>g * (xx + 1) + E = P\<close>. Measured on the page, \<open>g\<close> lies between the page
  edge and the first envelope, between every two neighbouring envelopes, and between
  the last envelope and the opposite page edge. Where every column (row) is occupied,
  the number of occupied columns (rows) can stand for \<open>xx\<close> (\<open>yy\<close>). The
  arithmetic of PostScript is taken as exact.
\<close>

theorem uniform_gutters:
  assumes fp: "fill_page f xx yy ids idx = Some (Inr st)"
    and x: "x < nat xx" and y: "y < nat yy"
  shows "gutter_x (llx, lly, urx, ury) xx st * of_int (xx + 1) + of_int (total (lrbound st))
           = page_width (llx, lly, urx, ury)
       \<and> gutter_y (llx, lly, urx, ury) yy st * of_int (yy + 1) + of_int (total (tbbound st))
           = page_height (llx, lly, urx, ury)
       \<and> left_edge (llx, lly, urx, ury) xx yy st y 0
           = Some (llx + gutter_x (llx, lly, urx, ury) xx st)
       \<and> (x + 1 < nat xx \<longrightarrow>
            (\<exists>r l. right_edge (llx, lly, urx, ury) xx yy st y x = Some r
                  \<and> left_edge (llx, lly, urx, ury) xx yy st y (x + 1) = Some l
                  \<and> l - r = gutter_x (llx, lly, urx, ury) xx st))
       \<and> (\<exists>r. right_edge (llx, lly, urx, ury) xx yy st y (nat xx - 1) = Some r
                \<and> urx - r = gutter_x (llx, lly, urx, ury) xx st)
       \<and> bottom_edge (llx, lly, urx, ury) xx yy st (nat yy - 1) x
           = Some (lly + gutter_y (llx, lly, urx, ury) yy st)
       \<and> (y + 1 < nat yy \<longrightarrow>
            (\<exists>b t. bottom_edge (llx, lly, urx, ury) xx yy st y x = Some b
                  \<and> top_edge (llx, lly, urx, ury) xx yy st (y + 1) x = Some t
                  \<and> b - t = gutter_y (llx, lly, urx, ury) yy st))
       \<and> (\<exists>t. top_edge (llx, lly, urx, ury) xx yy st 0 x = Some t
                \<and> ury - t = gutter_y (llx, lly, urx, ury) yy st)
       \<and> (occupied_columns xx yy st = nat xx \<longrightarrow>
             gutter_x (llx, lly, urx, ury) xx st * (of_nat (occupied_columns xx yy st) + 1)
               + of_int (total (lrbound st)) = page_width (llx, lly, urx, ury))
       \<and> (occupied_rows xx yy st = nat yy \<longrightarrow>
             gutter_y (llx, lly, urx, ury) yy st * (of_nat (occupied_rows xx yy st) + 1)
               + of_int (total (tbbound st)) = page_height (llx, lly, urx, ury))"
proof -
  let ?clip = "(llx, lly, urx, ury)"
  let ?gx = "gutter_x ?clip xx st" and ?gy = "gutter_y ?clip yy st"
  have xx: "0 < xx" "xx + 1 \<noteq> 0" and yy: "0 < yy" "yy + 1 \<noteq> 0" using x y by simp_all
  have nz: "(of_int (xx + 1) :: rat) \<noteq> 0" "(of_int (yy + 1) :: rat) \<noteq> 0"
    using xx yy by simp_all
  have len: "length (lrbound st) = nat xx" "length (tbbound st) = nat yy"
    using fill_page_lengths [OF fp] by simp_all
  have g1: "?gx * of_int (xx + 1) + of_int (total (lrbound st)) = page_width ?clip"
    using nz(1) by (simp add: gutter_x_def)
  have g2: "?gy * of_int (yy + 1) + of_int (total (tbbound st)) = page_height ?clip"
    using nz(2) by (simp add: gutter_y_def)
  have l0: "left_edge ?clip xx yy st y 0 = Some (llx + ?gx)"
    using xx yy by (simp add: left_edge_value total_sum)
  have adj: "\<exists>r l. right_edge ?clip xx yy st y x = Some r
                  \<and> left_edge ?clip xx yy st y (x + 1) = Some l \<and> l - r = ?gx"
    using xx yy x len by (simp add: left_edge_value right_edge_value algebra_simps)
  have last: "\<exists>r. right_edge ?clip xx yy st y (nat xx - 1) = Some r \<and> urx - r = ?gx"
  proof -
    have c: "nat xx - 1 < length (lrbound st)" "Suc (nat xx - 1) = nat xx"
      "int (nat xx - 1) + 1 = xx"
      using xx len by simp_all
    have "urx - (llx + ?gx * of_int xx + of_int (total (lrbound st))) = ?gx"
      using g1 by (simp add: page_width_def algebra_simps)
    then show ?thesis
      using xx yy c len by (simp add: right_edge_value)
  qed
  have b0: "bottom_edge ?clip xx yy st (nat yy - 1) x = Some (lly + ?gy)"
  proof -
    have c: "Suc (nat yy - 1) = nat yy" "yy - int (nat yy - 1) = 1" using yy by simp_all
    show ?thesis using xx yy len by (simp add: bottom_edge_value c total_sum)
  qed
  have vadj: "\<exists>b t. bottom_edge ?clip xx yy st y x = Some b
                  \<and> top_edge ?clip xx yy st (y + 1) x = Some t \<and> b - t = ?gy"
    if "y + 1 < nat yy"
  proof -
    let ?B = "lly + ?gy * of_int (yy - int y) + of_int (total (drop (Suc y) (tbbound st)))"
    let ?T = "lly + ?gy * of_int (yy - int (y + 1)) + of_int (total (drop (y + 1) (tbbound st)))"
    have be: "bottom_edge ?clip xx yy st y x = Some ?B"
      using xx yy by (simp add: bottom_edge_value)
    have te: "top_edge ?clip xx yy st (y + 1) x = Some ?T"
      using xx yy that len by (intro top_edge_value) simp_all
    have "?B - ?T = ?gy" by (simp add: algebra_simps)
    with be te show ?thesis by blast
  qed
  have top: "\<exists>t. top_edge ?clip xx yy st 0 x = Some t \<and> ury - t = ?gy"
  proof -
    have "ury - (lly + ?gy * of_int yy + of_int (total (tbbound st))) = ?gy"
      using g2 by (simp add: page_height_def algebra_simps)
    then show ?thesis using xx yy y len by (simp add: top_edge_value)
  qed
  have oc: "?gx * (of_nat (occupied_columns xx yy st) + 1)
               + of_int (total (lrbound st)) = page_width ?clip"
    if "occupied_columns xx yy st = nat xx"
    using g1 xx that by simp
  have orw: "?gy * (of_nat (occupied_rows xx yy st) + 1)
               + of_int (total (tbbound st)) = page_height ?clip"
    if "occupied_rows xx yy st = nat yy"
    using g2 yy that by simp
  show ?thesis
    using g1 g2 l0 adj last b0 vadj top oc orw by blast
qed

lemma rect_1x1:
  "rect_format ''1x1:a''
     = Some (Inr ((7, 7, 7, 7), snd (rect_render \<lparr>width = 1, height = 1, cells = [- 1]\<rparr>)))"
  by (simp add: rect_format_def rect_decode_def rect_seed_body_def eval_defs rect_render_def
      Let_def)

lemma rect_render_nonempty: "snd (rect_render g) \<noteq> []"
  by (simp add: rect_render_def Let_def)

lemma half_page:
  "fill_page rect_format 2 1 [''1x1:a''] 0
     = Some (Inr \<lparr>fragments = [[snd (rect_render \<lparr>width = 1, height = 1, cells = [- 1]\<rparr>), []]],
                   lrbound = [(7, 7), (0, 0)], tbbound = [(7, 7)], puzzle_index = 1\<rparr>)"
  by (simp add: fill_page_def new_page_def rect_1x1 eval_nat_numeral upt_rec)

theorem uniform_gutters_witness:
  "fill_page rect_format 2 1 [''1x1:a''] 0
     = Some (Inr \<lparr>fragments = [[snd (rect_render \<lparr>width = 1, height = 1, cells = [- 1]\<rparr>), []]],
                   lrbound = [(7, 7), (0, 0)], tbbound = [(7, 7)], puzzle_index = 1\<rparr>)
   \<and> (0 :: nat) < nat 2 \<and> (0 :: nat) < nat 1
   \<and> gutter_x (0, 0, 44, 50) 2
        \<lparr>fragments = [[snd (rect_render \<lparr>width = 1, height = 1, cells = [- 1]\<rparr>), []]],
         lrbound = [(7, 7), (0, 0)], tbbound = [(7, 7)], puzzle_index = 1\<rparr> = 10
   \<and> left_edge (0, 0, 44, 50) 2 1
        \<lparr>fragments = [[snd (rect_render \<lparr>width = 1, height = 1, cells = [- 1]\<rparr>), []]],
         lrbound = [(7, 7), (0, 0)], tbbound = [(7, 7)], puzzle_index = 1\<rparr> 0 0
       = Some (0 + gutter_x (0, 0, 44, 50) 2
           \<lparr>fragments = [[snd (rect_render \<lparr>width = 1, height = 1, cells = [- 1]\<rparr>), []]],
            lrbound = [(7, 7), (0, 0)], tbbound = [(7, 7)], puzzle_index = 1\<rparr>)
   \<and> right_edge (0, 0, 44, 50) 2 1
        \<lparr>fragments = [[snd (rect_render \<lparr>width = 1, height = 1, cells = [- 1]\<rparr>), []]],
         lrbound = [(7, 7), (0, 0)], tbbound = [(7, 7)], puzzle_index = 1\<rparr> 0 0 = Some 24
   \<and> left_edge (0, 0, 44, 50) 2 1
        \<lparr>fragments = [[snd (rect_render \<lparr>width = 1, height = 1, cells = [- 1]\<rparr>), []]],
         lrbound = [(7, 7), (0, 0)], tbbound = [(7, 7)], puzzle_index = 1\<rparr> 0 1 = Some 34
   \<and> (34 :: rat) - 24 = 10"
proof -
  let ?st = "\<lparr>fragments = [[snd (rect_render \<lparr>width = 1, height = 1, cells = [- 1]\<rparr>), []]],
         lrbound = [(7, 7), (0, 0)], tbbound = [(7, 7)], puzzle_index = 1\<rparr>"
  have h: "(0 :: nat) < nat 2" "(0 :: nat) < nat 1" by simp_all
  have g: "gutter_x (0, 0, 44, 50) 2 ?st = 10"
    by (simp add: gutter_x_def page_width_def total_def)
  have "left_edge (0, 0, 44, 50) 2 1 ?st 0 0 = Some (0 + gutter_x (0, 0, 44, 50) 2 ?st)"
    using uniform_gutters [OF half_page h, of 0 0 44 50] by blast
  moreover have "right_edge (0, 0, 44, 50) 2 1 ?st 0 0 = Some 24"
    "left_edge (0, 0, 44, 50) 2 1 ?st 0 1 = Some 34"
    by (simp_all add: total_def page_width_def gutter_x_def right_edge_def left_edge_def
        cell_origin_def position_lines_def eval_nat_numeral upt_rec)
  ultimately show ?thesis using half_page h g by simp
qed

text \<open>
  C1 as stated fails on a page with an empty column: with the shape 2 x 1 and one
  puzzle, one column is occupied, the gutter on a page 44 wide is 10, and
  \<open>10 * (1 + 1) + 14\<close> is not 44; the puzzle ends at 24, which is 20 from the
  page edge.
\<close>

theorem gutter_counts_all_columns:
  "fill_page rect_format 2 1 [''1x1:a''] 0
     = Some (Inr \<lparr>fragments = [[snd (rect_render \<lparr>width = 1, height = 1, cells = [- 1]\<rparr>), []]],
                   lrbound = [(7, 7), (0, 0)], tbbound = [(7, 7)], puzzle_index = 1\<rparr>)
   \<and> occupied_columns 2 1
        \<lparr>fragments = [[snd (rect_render \<lparr>width = 1, height = 1, cells = [- 1]\<rparr>), []]],
         lrbound = [(7, 7), (0, 0)], tbbound = [(7, 7)], puzzle_index = 1\<rparr> = 1
   \<and> total [(7, 7), (0, 0)] = 14
   \<and> page_width (0, 0, 44, 50) = 44
   \<and> gutter_x (0, 0, 44, 50) 2
        \<lparr>fragments = [[snd (rect_render \<lparr>width = 1, height = 1, cells = [- 1]\<rparr>), []]],
         lrbound = [(7, 7), (0, 0)], tbbound = [(7, 7)], puzzle_index = 1\<rparr> = 10
   \<and> (10 :: rat) * (1 + 1) + 14 \<noteq> 44
   \<and> right_edge (0, 0, 44, 50) 2 1
        \<lparr>fragments = [[snd (rect_render \<lparr>width = 1, height = 1, cells = [- 1]\<rparr>), []]],
         lrbound = [(7, 7), (0, 0)], tbbound = [(7, 7)], puzzle_index = 1\<rparr> 0 0 = Some 24
   \<and> (44 :: rat) - 24 \<noteq> 10"
  by (simp add: half_page occupied_columns_def rect_render_nonempty total_def page_width_def
      gutter_x_def right_edge_def cell_origin_def position_lines_def eval_nat_numeral upt_rec)

lemma read_ids_empty: "read_ids [] ids = ids"
  by (simp add: read_ids.simps readline_def)

lemma show_int_0: "show_int 0 = ''0''"
  by (simp add: show_int_def show_nat.simps char_of_def bit_iff_odd)

text \<open>
  C9. With a known game and a page shape whose product is positive, an empty input
  gives the whole preamble with a page count of 0, no page, and the trailer, and the
  script ends normally.
\<close>

theorem empty_input_document:
  assumes "3 \<le> length argv"
    and "formatters (argv ! 1) = Some f"
    and "map atoi (split (argv ! 2) CHR ''x'') = [Some xx, Some yy]"
    and "0 < xx * yy"
  shows "main argv [] =
     ([Text ''%!PS-Adobe-3.0'',
       Text ''%%Creator: print.py from Simon Tatham's Puzzle Collection'',
       Text ''%%DocumentData: Clean7Bit'',
       Text ''%%LanguageLevel: 1'',
       Text ''%%Pages: 0'',
       Text ''%%DocumentNeededResources:'',
       Text ''%%+ font Helvetica'',
       Text ''%%DocumentSuppliedResources: procset Puzzles 0 0'',
       Text ''%%EndComments'',
       Text ''%%BeginProlog'',
       Text ''%%BeginResource: procset Puzzles 0 0'',
       Text ''/ctshow {'',
       Text ''  3 1 roll'',
       Text ''  newpath 0 0 moveto (X) true charpath flattenpath pathbbox'',
       Text ''  3 -1 roll add 2 div 3 1 roll pop pop sub moveto'',
       Text ''  dup stringwidth pop 0.5 mul neg 0 rmoveto show'',
       Text ''} bind def'',
       Text ''%%EndResource'',
       Text ''%%EndProlog'',
       Text ''%%BeginSetup'',
       Text ''%%IncludeResource: font Helvetica'',
       Text ''%%EndSetup'',
       Text ''%%EOF''], Exit 0)"
proof -
  have ne: "xx * yy \<noteq> 0" using assms(4) by linarith
  have pg: "(int (length ([]::string list)) + xx * yy - 1) div (xx * yy) = 0"
    using assms(4) by simp
  have r: "run f xx yy [] = (preamble 0 @ [Text ''%%EOF''], Exit 0)"
    unfolding run_def Let_def using ne pg by simp
  have m: "main argv [] = run f xx yy []"
    using assms(1,2,3) by (simp add: main_def read_ids_empty Let_def)
  show ?thesis
    unfolding m r by (simp add: preamble_def show_int_0)
qed

theorem empty_input_document_witness:
  "(3::nat) \<le> length [''print.py'', ''rect'', ''2x3'']
   \<and> formatters ''rect'' = Some rect_format
   \<and> map atoi (split ''2x3'' CHR ''x'') = [Some 2, Some 3]
   \<and> (0::int) < 2 * 3
   \<and> snd (main [''print.py'', ''rect'', ''2x3''] []) = Exit 0
   \<and> length (fst (main [''print.py'', ''rect'', ''2x3''] [])) = 23"
proof -
  have a: "(3::nat) \<le> length [''print.py'', ''rect'', ''2x3'']" by simp
  have b: "formatters ([''print.py'', ''rect'', ''2x3''] ! 1) = Some rect_format"
    by (simp add: formatters_def)
  have c: "map atoi (split ([''print.py'', ''rect'', ''2x3''] ! 2) CHR ''x'') = [Some 2, Some 3]"
    by (simp add: eval_defs)
  have d: "(0::int) < 2 * 3" by simp
  show ?thesis
    using b c empty_input_document [OF a b c d] by simp
qed

text \<open>
  C5 fails on the code. The seed loops of \<open>rect_format\<close>, \<open>solo_format\<close>,
  \<open>slant_format\<close> and \<open>lightup_format\<close> have no branch for a character they do
  not know: the seed is not shortened and the loop never ends, and so the run never
  ends. \<open>net_format\<close> and \<open>dominosa_format\<close> raise on such a character.
\<close>

theorem unrecognized_token_never_returns:
  "slant_format ''1x1:5'' = None
   \<and> rect_format ''1x1:A'' = None
   \<and> solo_format ''1x1:A'' = None
   \<and> lightup_format ''1x1:5'' = None
   \<and> snd (run slant_format 1 1 [''1x1:5'']) = Hang
   \<and> net_format ''1x1:g'' = Some (Inl ValueError)
   \<and> dominosa_format ''0:0a'' = Some (Inl AssertionError)"
proof -
  have 1: "seed_loop slant_seed_body ''5'' [] = None"
    by (rule seed_loop_stuck) (simp_all add: slant_seed_body_def lowercase_def)
  have 2: "seed_loop rect_seed_body ''A'' [] = None"
    by (rule seed_loop_stuck) (simp_all add: rect_seed_body_def lowercase_def digits_def)
  have 3: "seed_loop solo_seed_body ''A'' [] = None"
    by (rule seed_loop_stuck) (simp_all add: solo_seed_body_def lowercase_def digits_def)
  have 4: "seed_loop lightup_seed_body ''5'' [] = None"
    by (rule seed_loop_stuck) (simp_all add: lightup_seed_body_def lowercase_def)
  have s1: "slant_format ''1x1:5'' = None"
    using 1 by (simp add: slant_format_def slant_decode_def split_descriptor_def parse_dims_def
        atoi_def isspace_def isdigit_def digits_def)
  have s2: "rect_format ''1x1:A'' = None"
    using 2 by (simp add: rect_format_def rect_decode_def split_descriptor_def parse_dims_def
        atoi_def isspace_def isdigit_def digits_def)
  have s3: "solo_format ''1x1:A'' = None"
    using 3 by (simp add: solo_format_def solo_decode_def split_descriptor_def parse_dims_def
        atoi_def isspace_def isdigit_def digits_def)
  have s4: "lightup_format ''1x1:5'' = None"
    using 4 by (simp add: lightup_format_def lightup_decode_def split_descriptor_def
        parse_dims_def atoi_def isspace_def isdigit_def digits_def)
  have s5: "net_format ''1x1:g'' = Some (Inl ValueError)"
    by (simp add: net_format_def net_decode_def net_seed_body_def eval_defs)
  have s6: "dominosa_format ''0:0a'' = Some (Inl AssertionError)"
    by (simp add: dominosa_format_def dominosa_decode_def dominosa_seed_body_def eval_defs)
  have h: "snd (run slant_format 1 1 [''1x1:5'']) = Hang"
    using run_failure [where xx = 1 and yy = 1 and k = 0 and f = slant_format
        and ids = "[''1x1:5'']" and bad = None] s1
    by simp
  show ?thesis using s1 s2 s3 s4 s5 s6 h by simp
qed

lemma readline_line:
  "CHR 0x0A \<notin> set l \<Longrightarrow> readline (l @ CHR 0x0A # rest) = (l @ [CHR 0x0A], rest)"
proof -
  assume a: "CHR 0x0A \<notin> set l"
  have d: "dropWhile (\<lambda>c. c \<noteq> CHR 0x0A) (l @ CHR 0x0A # rest) = CHR 0x0A # rest"
    using a by (induction l) auto
  have t: "takeWhile (\<lambda>c. c \<noteq> CHR 0x0A) (l @ CHR 0x0A # rest) = l"
    using a by (induction l) auto
  show ?thesis by (simp add: readline_def d t)
qed

lemma readline_tail:
  "CHR 0x0A \<notin> set l \<Longrightarrow> readline l = (l, [])"
proof -
  assume a: "CHR 0x0A \<notin> set l"
  have d: "dropWhile (\<lambda>c. c \<noteq> CHR 0x0A) l = []"
    using a by (induction l) auto
  show ?thesis by (simp add: readline_def d)
qed

lemma read_ids_lines:
  assumes "\<forall>l\<in>set ls. CHR 0x0A \<notin> set l" "CHR 0x0A \<notin> set rest"
  shows "read_ids (concat (map (\<lambda>l. l @ [CHR 0x0A]) ls) @ rest) ids
           = ids @ ls @ (if rest = [] then [] else [rest])"
  using assms
proof (induction ls arbitrary: ids)
  case Nil
  show ?case
  proof (cases "rest = []")
    case True
    then show ?thesis by (simp add: read_ids.simps [of "[]"] readline_def)
  next
    case False
    have "last rest \<noteq> CHR 0x0A"
      using Nil.prems(2) last_in_set [OF False] by auto
    then have "read_ids rest ids = read_ids [] (ids @ [rest])"
      using False Nil.prems(2)
      by (subst read_ids.simps) (simp add: readline_tail)
    then show ?thesis using False by (simp add: read_ids.simps [of "[]"] readline_def)
  qed
next
  case (Cons l ls)
  have nl: "CHR 0x0A \<notin> set l" using Cons.prems(1) by simp
  have "read_ids (concat (map (\<lambda>l. l @ [CHR 0x0A]) (l # ls)) @ rest) ids
        = read_ids (concat (map (\<lambda>l. l @ [CHR 0x0A]) ls) @ rest) (ids @ [l])"
    using readline_line [OF nl, of "concat (map (\<lambda>l. l @ [CHR 0x0A]) ls) @ rest"]
    by (subst read_ids.simps) simp
  then show ?case using Cons.IH [of "ids @ [l]"] Cons.prems by simp
qed

lemma formatter_no_colon:
  assumes "formatters name = Some f" "CHR '':'' \<notin> set s"
  shows "f s = Some (Inl ValueError)"
proof -
  have sd: "split_descriptor s = Inl ValueError"
    using assms(2) by (rule split_descriptor_no_colon)
  have "f = net_format \<or> f = rect_format \<or> f = pattern_format \<or> f = solo_format
        \<or> f = dominosa_format \<or> f = slant_format \<or> f = lightup_format"
    using assms(1) by (auto simp: formatters_def split: if_splits)
  then show ?thesis
    using sd
    by (auto simp: net_format_def net_decode_def rect_format_def rect_decode_def
          pattern_format_def pattern_decode_def solo_format_def solo_decode_def
          dominosa_format_def dominosa_decode_def slant_format_def slant_decode_def
          lightup_format_def lightup_decode_def)
qed

lemma main_run:
  assumes "3 \<le> length argv" "formatters (argv ! 1) = Some f"
    "map atoi (split (argv ! 2) CHR ''x'') = [Some xx, Some yy]"
  shows "main argv inp = run f xx yy (read_ids inp [])"
  using assms by (simp add: main_def Let_def)

text \<open>
  C10. The read loop keeps every line of standard input, empty ones too, without its
  one trailing newline (a last line without a newline is kept as well). A line
  without a colon makes every formatter fail with \<open>ValueError\<close> at the split of
  parameters and seed. With a page shape of positive numbers, the first line on which
  the formatter raises is reached and its exception ends the run: no line is skipped.
\<close>

theorem every_line_is_formatted:
  "((\<forall>l\<in>set ls. CHR 0x0A \<notin> set l) \<and> CHR 0x0A \<notin> set rest \<longrightarrow>
      read_ids (concat (map (\<lambda>l. l @ [CHR 0x0A]) ls) @ rest) []
        = ls @ (if rest = [] then [] else [rest]))
   \<and> (formatters name = Some f \<and> CHR '':'' \<notin> set s \<longrightarrow> f s = Some (Inl ValueError))
   \<and> (0 < xx \<and> 0 < yy \<and> k < length ids \<and> (\<forall>j<k. \<exists>r. f (ids ! j) = Some (Inr r))
        \<and> f (ids ! k) = Some (Inl e)
      \<longrightarrow> snd (run f xx yy ids) = Traceback e)
   \<and> (0 < xx \<and> 0 < yy \<and> k < length ids \<and> (\<forall>j<k. \<exists>r. f (ids ! j) = Some (Inr r))
        \<and> formatters name = Some f \<and> CHR '':'' \<notin> set (ids ! k)
      \<longrightarrow> snd (run f xx yy ids) = Traceback ValueError)
   \<and> (3 \<le> length argv \<and> formatters (argv ! 1) = Some f
        \<and> map atoi (split (argv ! 2) CHR ''x'') = [Some xx, Some yy]
      \<longrightarrow> main argv inp = run f xx yy (read_ids inp []))"
proof -
  have a: "read_ids (concat (map (\<lambda>l. l @ [CHR 0x0A]) ls) @ rest) []
        = ls @ (if rest = [] then [] else [rest])"
    if "\<forall>l\<in>set ls. CHR 0x0A \<notin> set l" "CHR 0x0A \<notin> set rest"
    using read_ids_lines [OF that, of "[]"] by simp
  have b: "f s = Some (Inl ValueError)" if "formatters name = Some f" "CHR '':'' \<notin> set s"
    using that by (rule formatter_no_colon)
  have c: "snd (run f xx yy ids) = Traceback e"
    if "0 < xx" "0 < yy" "k < length ids" "\<forall>j<k. \<exists>r. f (ids ! j) = Some (Inr r)"
      "f (ids ! k) = Some (Inl e)" for e
    using run_failure [OF that(1,2,4,3,5)] by simp
  have d: "snd (run f xx yy ids) = Traceback ValueError"
    if "0 < xx" "0 < yy" "k < length ids" "\<forall>j<k. \<exists>r. f (ids ! j) = Some (Inr r)"
      "formatters name = Some f" "CHR '':'' \<notin> set (ids ! k)"
    using c [OF that(1,2,3,4) formatter_no_colon [OF that(5,6)]] .
  have m: "main argv inp = run f xx yy (read_ids inp [])"
    if "3 \<le> length argv" "formatters (argv ! 1) = Some f"
      "map atoi (split (argv ! 2) CHR ''x'') = [Some xx, Some yy]"
    using that by (rule main_run)
  show ?thesis
    apply (intro conjI impI)
    subgoal by (elim conjE) (rule a)
    subgoal by (elim conjE) (rule b)
    subgoal by (elim conjE) (rule c)
    subgoal by (elim conjE) (rule d)
    subgoal by (elim conjE) (rule m)
    done
qed

theorem every_line_is_formatted_witness:
  "read_ids (''1x1:a'' @ [CHR 0x0A] @ [CHR 0x0A]) [] = [''1x1:a'', '''']
   \<and> formatters ''rect'' = Some rect_format
   \<and> rect_format '''' = Some (Inl ValueError)
   \<and> snd (run rect_format 1 1 [''1x1:a'', '''']) = Traceback ValueError
   \<and> snd (main [''print.py'', ''rect'', ''1x1''] (''1x1:a'' @ [CHR 0x0A] @ [CHR 0x0A]))
       = Traceback ValueError"
proof -
  have f: "formatters ''rect'' = Some rect_format" by (simp add: formatters_def)
  have r: "read_ids (concat (map (\<lambda>l. l @ [CHR 0x0A]) [''1x1:a'', '''']) @ []) []
            = [''1x1:a'', ''''] @ (if ([]::string) = [] then [] else [[]])"
    using every_line_is_formatted [where ls = "[''1x1:a'', '''']" and rest = "[]"] by simp
  have e: "rect_format '''' = Some (Inl ValueError)"
    using every_line_is_formatted [where name = "''rect''" and f = rect_format and s = "''''"] f
    by simp
  have ok: "\<forall>j<1. \<exists>r. rect_format ([''1x1:a'', ''''] ! j) = Some (Inr r)"
    by (simp add: rect_1x1)
  have t: "snd (run rect_format 1 1 [''1x1:a'', '''']) = Traceback ValueError"
    using every_line_is_formatted [where xx = 1 and yy = 1 and k = 1
        and ids = "[''1x1:a'', '''']" and f = rect_format and name = "''rect''"] f ok
    by simp
  have a: "map atoi (split ([''print.py'', ''rect'', ''1x1''] ! 2) CHR ''x'') = [Some 1, Some 1]"
    by (simp add: eval_defs)
  have m: "main [''print.py'', ''rect'', ''1x1''] (''1x1:a'' @ [CHR 0x0A] @ [CHR 0x0A])
            = run rect_format 1 1 (read_ids (''1x1:a'' @ [CHR 0x0A] @ [CHR 0x0A]) [])"
    using every_line_is_formatted [where argv = "[''print.py'', ''rect'', ''1x1'']"
        and f = rect_format and xx = 1 and yy = 1
        and inp = "''1x1:a'' @ [CHR 0x0A] @ [CHR 0x0A]"] f a
    by simp
  show ?thesis using f r e t m by simp
qed

text \<open>
  C3. With a page shape of positive numbers, a run in which the formatter returns
  for every descriptor ends normally, and a run that ends normally has printed
  one \<open>%%Page:\<close> comment for each of the pages 1 to \<open>ceil(k / (cols * rows))\<close>
  and has declared that count in the preamble. On every page, hence on the last one,
  a page cell that no descriptor is left for prints nothing.
\<close>

theorem pagination:
  "(0 < xx \<and> 0 < yy \<and> (\<forall>j<length ids. \<exists>r. f (ids ! j) = Some (Inr r)) \<longrightarrow>
      (\<exists>outp. run f xx yy ids = (outp, Exit 0)))
   \<and> (0 < xx \<and> 0 < yy \<and> run f xx yy ids = (outp, Exit 0) \<longrightarrow>
      filter is_page_marker outp
        = map page_marker [1..\<lceil>real (length ids) / real_of_int (xx * yy)\<rceil>]
      \<and> length (filter is_page_marker outp) = nat \<lceil>real (length ids) / real_of_int (xx * yy)\<rceil>
      \<and> Text (''%%Pages: '' @ show_int \<lceil>real (length ids) / real_of_int (xx * yy)\<rceil>)
           \<in> set outp)
   \<and> (fill_page f xx yy ids idx = Some (Inr st) \<and> y < nat yy \<and> x < nat xx
        \<and> length ids \<le> idx + y * nat xx + x
      \<longrightarrow> emit_cell xx yy st y x = [])"
proof -
  have a: "filter is_page_marker outp
        = map page_marker [1..\<lceil>real (length ids) / real_of_int (xx * yy)\<rceil>]
      \<and> length (filter is_page_marker outp) = nat \<lceil>real (length ids) / real_of_int (xx * yy)\<rceil>
      \<and> Text (''%%Pages: '' @ show_int \<lceil>real (length ids) / real_of_int (xx * yy)\<rceil>)
           \<in> set outp"
    if "0 < xx" "0 < yy" "run f xx yy ids = (outp, Exit 0)"
  proof -
    define pages where "pages = (int (length ids) + xx * yy - 1) div (xx * yy)"
    have pos: "0 < xx * yy" using that(1,2) by simp
    have pc: "pages = \<lceil>real (length ids) / real_of_int (xx * yy)\<rceil>"
      unfolding pages_def by (rule pages_is_ceiling [OF pos])
    obtain body r where d: "do_pages f xx yy ids 0 [1..pages] = (body, r)"
      by (cases "do_pages f xx yy ids 0 [1..pages]")
    have nz: "xx \<noteq> 0" "yy \<noteq> 0" using that(1,2) by simp_all
    from that(3) nz d obtain idx' where r: "r = Some (Inr idx')"
      and outp: "outp = preamble pages @ body @ [Text ''%%EOF'']"
      unfolding run_def Let_def pages_def [symmetric]
      by (auto split: option.splits sum.splits)
    have m: "filter is_page_marker outp = map page_marker [1..pages]"
      using do_pages_markers [OF d [unfolded r]]
      by (simp add: outp preamble_no_marker)
    have "Text (''%%Pages: '' @ show_int pages) \<in> set outp"
      by (simp add: outp preamble_def)
    moreover have "0 \<le> pages" unfolding pages_def using pos
      by (simp add: pos_imp_zdiv_nonneg_iff)
    ultimately show ?thesis using m unfolding pc [symmetric] by simp
  qed
  have b: "emit_cell xx yy st y x = []"
    if "fill_page f xx yy ids idx = Some (Inr st)" "y < nat yy" "x < nat xx"
      "length ids \<le> idx + y * nat xx + x"
    using unfilled_cell_is_blank [OF that] by (simp add: emit_cell_def)
  have z: "\<exists>outp. run f xx yy ids = (outp, Exit 0)"
    if "0 < xx" "0 < yy" "\<forall>j<length ids. \<exists>r. f (ids ! j) = Some (Inr r)"
    using that by (intro run_ok) simp_all
  show ?thesis
    apply (intro conjI impI)
    subgoal by (elim conjE) (rule z)
    subgoal using a by blast
    subgoal using a by blast
    subgoal using a by blast
    subgoal by (elim conjE) (rule b)
    done
qed

theorem pagination_witness:
  "(0 :: int) < 2 \<and> (0 :: int) < 1
   \<and> snd (run rect_format 2 1 [''1x1:a'']) = Exit 0
   \<and> length (filter is_page_marker (fst (run rect_format 2 1 [''1x1:a'']))) = 1
   \<and> fill_page rect_format 2 1 [''1x1:a''] 0
     = Some (Inr \<lparr>fragments = [[snd (rect_render \<lparr>width = 1, height = 1, cells = [- 1]\<rparr>), []]],
                   lrbound = [(7, 7), (0, 0)], tbbound = [(7, 7)], puzzle_index = 1\<rparr>)
   \<and> emit_cell 2 1
        \<lparr>fragments = [[snd (rect_render \<lparr>width = 1, height = 1, cells = [- 1]\<rparr>), []]],
         lrbound = [(7, 7), (0, 0)], tbbound = [(7, 7)], puzzle_index = 1\<rparr> 0 1 = []"
proof -
  let ?st = "\<lparr>fragments = [[snd (rect_render \<lparr>width = 1, height = 1, cells = [- 1]\<rparr>), []]],
         lrbound = [(7, 7), (0, 0)], tbbound = [(7, 7)], puzzle_index = 1\<rparr>"
  have s: "snd (run rect_format 2 1 [''1x1:a'']) = Exit 0"
    by (simp add: run_def Let_def half_page split: prod.splits option.splits sum.splits)
  have r: "run rect_format 2 1 [''1x1:a''] = (fst (run rect_format 2 1 [''1x1:a'']), Exit 0)"
    using s by (simp add: prod_eq_iff)
  have c: "\<lceil>real (length [''1x1:a'']) / real_of_int (2 * 1)\<rceil> = 1"
    by (simp add: ceiling_eq_iff)
  have n: "length (filter is_page_marker (fst (run rect_format 2 1 [''1x1:a'']))) = 1"
    using pagination [where xx = 2 and yy = 1 and f = rect_format and ids = "[''1x1:a'']"
        and outp = "fst (run rect_format 2 1 [''1x1:a''])"] r
    unfolding c by simp
  have e: "emit_cell 2 1 ?st 0 1 = []"
    using pagination [where xx = 2 and yy = 1 and f = rect_format and ids = "[''1x1:a'']"
        and idx = 0 and st = ?st and y = 0 and x = 1] half_page
    by simp
  show ?thesis using s n e half_page by simp
qed

section \<open>Facts about the order of drawing\<close>

lemma paint_translate [simp]: "paint_line [Num a, Num b, Op Translate] s = s"
  by (simp add: paint_line_def)

lemma paint_newpath_lw [simp]:
  "paint_line [Op Newpath, Num w, Op Setlinewidth] s = s\<lparr>lw := w, segs := 0, closed := False\<rparr>"
  by (simp add: paint_line_def)

lemma paint_vline [simp]: "paint_line (vline x l) s = s\<lparr>segs := segs s + 1\<rparr>"
  by (simp add: paint_line_def vline_def)

lemma paint_hline [simp]: "paint_line (hline y l) s = s\<lparr>segs := segs s + 1\<rparr>"
  by (simp add: paint_line_def hline_def)

lemma paint_boxpath [simp]: "paint_line (boxpath a b c) s = s\<lparr>segs := segs s + 3\<rparr>"
  by (simp add: paint_line_def boxpath_def)

lemma paint_stroke [simp]:
  "paint_line [Op Stroke] s
     = s\<lparr>events := events s @ [Strokes (lw s) (closed s) (segs s)], segs := 0, closed := False\<rparr>"
  by (simp add: paint_line_def)

lemma paint_closepath_stroke [simp]:
  "paint_line [Op Closepath, Op Stroke] s
     = s\<lparr>events := events s @ [Strokes (lw s) True (segs s)], segs := 0, closed := False\<rparr>"
  by (simp add: paint_line_def)

lemma paint_setfont [simp]: "paint_line (setfont font t) s = s"
  by (simp add: paint_line_def setfont_def)

lemma paint_ctshow [simp]:
  "paint_line (ctshow x y label) s
     = s\<lparr>events := events s @ [Shows label], segs := 0, closed := False\<rparr>"
  by (simp add: paint_line_def ctshow_def)

lemma paint_vlines [simp]:
  "fold paint_line (map (\<lambda>x. vline (f x) l) xs) s = s\<lparr>segs := segs s + length xs\<rparr>"
  by (induction xs arbitrary: s) simp_all

lemma paint_hlines [simp]:
  "fold paint_line (map (\<lambda>y. hline (f y) l) ys) s = s\<lparr>segs := segs s + length ys\<rparr>"
  by (induction ys arbitrary: s) simp_all

lemma paint_shows:
  assumes "\<forall>l\<in>set ls. \<exists>x y label. l = ctshow x y label"
  shows "\<exists>labels. events (fold paint_line ls s) = events s @ map Shows labels"
  using assms
proof (induction ls arbitrary: s)
  case Nil
  show ?case by (rule exI [of _ "[]"]) simp
next
  case (Cons l ls)
  then obtain x y label where l: "l = ctshow x y label" by auto
  let ?s1 = "s\<lparr>events := events s @ [Shows label], segs := 0, closed := False\<rparr>"
  from Cons obtain labels where "events (fold paint_line ls ?s1) = events ?s1 @ map Shows labels"
    by (metis list.set_intros(2))
  then show ?case by (intro exI [of _ "label # labels"]) (simp add: l)
qed

lemma paint_step_grows: "\<exists>more. events (paint_step t s) = events s @ more"
proof (cases t)
  case (Op f)
  then show ?thesis by (cases f) (auto split: list.splits pstok.splits)
qed simp_all

lemma paint_line_grows: "\<exists>more. events (paint_line l s) = events s @ more"
  unfolding paint_line_def
proof (induction l arbitrary: s)
  case Nil
  show ?case by simp
next
  case (Cons t ts)
  obtain m1 where "events (paint_step t s) = events s @ m1" using paint_step_grows by blast
  moreover obtain m2 where "events (fold paint_step ts (paint_step t s)) = events (paint_step t s) @ m2"
    using Cons by blast
  ultimately show ?case by simp
qed

lemma paint_lines_grow: "\<exists>more. events (fold paint_line ls s) = events s @ more"
proof (induction ls arbitrary: s)
  case Nil
  show ?case by simp
next
  case (Cons l ls)
  obtain m1 where "events (paint_line l s) = events s @ m1" using paint_line_grows by blast
  moreover obtain m2 where "events (fold paint_line ls (paint_line l s)) = events (paint_line l s) @ m2"
    using Cons by blast
  ultimately show ?case by simp
qed

lemma rect_paint:
  "\<exists>n labels. paint (snd (rect_render g))
      = [Strokes (1 / 100) False n, Strokes (3 / 2) True 3] @ map Shows labels"
proof -
  let ?w = "width g" and ?h = "height g"
  let ?decos = "concat (map (\<lambda>y. concat (map (\<lambda>x.
                let n = cells g ! nat (y * ?w + x)
                in if n > 0
                   then [ctshow ((of_int x + 1 / 2) * of_int 14)
                                ((of_int ?h - of_int y - 1 / 2) * of_int 14)
                                (show_int n)]
                   else []) [0..?w - 1])) [0..?h - 1])"
  let ?s1 = "paint_start\<lparr>lw := 3 / 2, segs := 0, closed := False,
      events := [Strokes (1 / 100) False (length [1..?w - 1] + length [1..?h - 1]),
                 Strokes (3 / 2) True 3]\<rparr>"
  have d: "\<forall>l\<in>set ?decos. \<exists>x y label. l = ctshow x y label"
    by (auto simp: Let_def split: if_splits)
  obtain labels where l: "events (fold paint_line ?decos ?s1) = events ?s1 @ map Shows labels"
    using paint_shows [OF d] by blast
  have "paint (snd (rect_render g)) = events (fold paint_line ?decos ?s1)"
    by (simp add: paint_def rect_render_def Let_def paint_start_def)
  then show ?thesis using l by (auto simp: paint_start_def)
qed

lemma paint_newpath [simp]: "paint_line [Op Newpath] s = s\<lparr>segs := 0, closed := False\<rparr>"
  by (simp add: paint_line_def)

lemma paint_setlinewidth [simp]: "paint_line [Num w, Op Setlinewidth] s = s\<lparr>lw := w\<rparr>"
  by (simp add: paint_line_def)

lemma ctshow_is_ctshow [simp]: "\<exists>x y label. ctshow a b l = ctshow x y label"
  by blast

lemma collect_all:
  assumes "collect f xs = Inr ys" "\<And>x zs. f x = Inr zs \<Longrightarrow> \<forall>z\<in>set zs. P z"
  shows "\<forall>y\<in>set ys. P y"
  using assms(1)
proof (induction xs arbitrary: ys)
  case Nil
  then show ?case by simp
next
  case (Cons x xs)
  from Cons.prems obtain zs rest where
    z: "f x = Inr zs" and r: "collect f xs = Inr rest" and ys: "ys = zs @ rest"
    by (auto split: sum.splits)
  show ?case using assms(2) [OF z] Cons.IH [OF r] ys by auto
qed

lemma solo_paint:
  assumes "solo_render g = Inr (c, frag)"
  shows "\<exists>n m labels. paint frag
      = [Strokes (1 / 10) False n, Strokes 1 False m, Strokes (3 / 2) True 3] @ map Shows labels"
proof -
  let ?cr = "cols g * rows g"
  from assms obtain thickx thicky numbers where
    tx: "xrange3 (rows g) ?cr (rows g) = Inr thickx"
    and ty: "xrange3 (cols g) ?cr (cols g) = Inr thicky"
    and nums: "collect (\<lambda>y. collect (\<lambda>x. solo_number ?cr (scells g ! nat (y * ?cr + x)) x y)
                                   [0..?cr - 1]) [0..?cr - 1] = Inr numbers"
    by (auto simp: solo_render_def Let_def split: sum.splits)
  have inner: "\<forall>z\<in>set zs. \<exists>x y label. z = ctshow x y label"
    if "collect (\<lambda>x. solo_number ?cr (scells g ! nat (y * ?cr + x)) x y) [0..?cr - 1] = Inr zs"
    for y zs
    using that
    by (rule collect_all) (auto simp: solo_number_def Let_def split: if_splits sum.splits)
  have d: "\<forall>l\<in>set numbers. \<exists>x y label. l = ctshow x y label"
    using nums by (rule collect_all) (rule inner)
  let ?n = "length (filter (\<lambda>x. x mod rows g \<noteq> 0) [1..?cr - 1])
            + length (filter (\<lambda>y. y mod cols g \<noteq> 0) [1..?cr - 1])"
  let ?s1 = "paint_start\<lparr>lw := 3 / 2, segs := 0, closed := False,
      events := [Strokes (1 / 10) False ?n, Strokes 1 False (length thickx + length thicky),
                 Strokes (3 / 2) True 3]\<rparr>"
  obtain labels where l: "events (fold paint_line numbers ?s1) = events ?s1 @ map Shows labels"
    using paint_shows [OF d] by blast
  have "paint frag = events (fold paint_line numbers ?s1)"
    using assms tx ty nums by (auto simp: paint_def solo_render_def Let_def paint_start_def)
  then show ?thesis using l by (auto simp: paint_start_def)
qed

lemma pattern_paint:
  assumes "pattern_render g = Inr (c, frag)"
  shows "\<exists>n m labels. paint frag
      = [Strokes (1 / 10) False n, Strokes (3 / 4) False m, Strokes (3 / 2) True 3]
        @ map Shows labels"
proof -
  let ?w = "pwidth g" and ?h = "pheight g"
  let ?decos = "concat (map (\<lambda>i. pattern_numbers ?w i (rowdata g ! nat i)) [0..?w + ?h - 1])"
  have d: "\<forall>l\<in>set ?decos. \<exists>x y label. l = ctshow x y label"
    by (auto simp: pattern_numbers_def Let_def split: if_splits)
  let ?n = "length (filter (\<lambda>x. x mod 5 \<noteq> 0) [1..?w - 1])
            + length (filter (\<lambda>y. y mod 5 \<noteq> 0) [1..?h - 1])"
  let ?s1 = "paint_start\<lparr>lw := 3 / 2, segs := 0, closed := False,
      events := [Strokes (1 / 10) False ?n,
                 Strokes (3 / 4) False (length (xrange_step 5 ?w 5) + length (xrange_step 5 ?h 5)),
                 Strokes (3 / 2) True 3]\<rparr>"
  obtain labels where l: "events (fold paint_line ?decos ?s1) = events ?s1 @ map Shows labels"
    using paint_shows [OF d] by blast
  have "paint frag = events (fold paint_line ?decos ?s1)"
    using assms by (auto simp: paint_def pattern_render_def Let_def paint_start_def split: sum.splits)
  then show ?thesis using l by (auto simp: paint_start_def)
qed

lemma net_paint:
  "\<exists>n more. paint (snd (net_render g))
      = [Strokes (1 / 50) False n, Strokes (if wrapping g then 1 / 50 else 2) True 3] @ more"
proof -
  let ?w = "width g" and ?h = "height g"
  let ?rest = "[[Op Newpath, N 2, Op Setlinewidth, N 1, Op Setlinecap]]
          @ map (\<lambda>(x, y). [N (x * 24), N ((?h - y) * 24), Op Moveto,
                            N 24, N 0, Op Rlineto]) (hbarriers g)
          @ map (\<lambda>(x, y). [N (x * 24), N ((?h - y) * 24), Op Moveto,
                            N 0, N (- 24), Op Rlineto]) (vbarriers g)
          @ [[Op Stroke]]
          @ concat (map (net_cell ?w ?h (cells g)) [0..int (length (cells g)) - 1])"
  let ?s1 = "paint_start\<lparr>lw := (if wrapping g then 1 / 50 else 2), segs := 0, closed := False,
      events := [Strokes (1 / 50) False (length [1..?w - 1] + length [1..?h - 1]),
                 Strokes (if wrapping g then 1 / 50 else 2) True 3]\<rparr>"
  obtain more where m: "events (fold paint_line ?rest ?s1) = events ?s1 @ more"
    using paint_lines_grow by blast
  have "paint (snd (net_render g)) = events (fold paint_line ?rest ?s1)"
    by (simp add: paint_def net_render_def Let_def paint_start_def)
  then show ?thesis using m by (auto simp: paint_start_def)
qed

lemma slant_paint:
  "\<exists>n more. paint (snd (slant_render g))
      = [Strokes 1 True 3, Strokes (1 / 100) False n] @ more"
proof -
  let ?w = "width g" and ?h = "height g"
  let ?rest = "[setfont ''Helvetica'' 7]
          @ concat (map (\<lambda>y. concat (map (\<lambda>x.
                slant_clue ?h (cells g ! nat (y * (?w + 1) + x)) x y) [0..?w + 1 - 1]))
                [0..?h + 1 - 1])"
  let ?s1 = "paint_start\<lparr>lw := 1 / 100, segs := 0, closed := False,
      events := [Strokes 1 True 3,
                 Strokes (1 / 100) False (length [1..?w - 1] + length [1..?h - 1])]\<rparr>"
  obtain more where m: "events (fold paint_line ?rest ?s1) = events ?s1 @ more"
    using paint_lines_grow by blast
  have "paint (snd (slant_render g)) = events (fold paint_line ?rest ?s1)"
    by (simp add: paint_def slant_render_def Let_def paint_start_def)
  then show ?thesis using m by (auto simp: paint_start_def)
qed

lemma lightup_paint:
  "\<exists>n more. paint (snd (lightup_render g))
      = [Strokes 1 True 3, Strokes (1 / 50) False n] @ more"
proof -
  let ?w = "width g" and ?h = "height g"
  let ?rest = "[setfont ''Helvetica-Bold'' 10]
          @ concat (map (\<lambda>y. concat (map (\<lambda>x.
                lightup_square ?h (cells g ! nat (y * ?w + x)) x y) [0..?w - 1])) [0..?h - 1])"
  let ?s1 = "paint_start\<lparr>lw := 1 / 50, segs := 0, closed := False,
      events := [Strokes 1 True 3,
                 Strokes (1 / 50) False (length [1..?w - 1] + length [1..?h - 1])]\<rparr>"
  obtain more where m: "events (fold paint_line ?rest ?s1) = events ?s1 @ more"
    using paint_lines_grow by blast
  have "paint (snd (lightup_render g)) = events (fold paint_line ?rest ?s1)"
    by (simp add: paint_def lightup_render_def Let_def paint_start_def)
  then show ?thesis using m by (auto simp: paint_start_def)
qed

lemma dominosa_paint:
  "\<exists>labels. paint (snd (dominosa_render g)) = map Shows labels"
proof -
  let ?w = "width g" and ?h = "height g"
  let ?decos = "concat (map (\<lambda>y. map (\<lambda>x.
                ctshow ((of_int x + 1 / 2) * of_int 16)
                       ((of_int ?h - of_int y - 1 / 2) * of_int 16)
                       (show_int (cells g ! nat (y * ?w + x)))) [0..?w - 1]) [0..?h - 1])"
  have d: "\<forall>l\<in>set ?decos. \<exists>x y label. l = ctshow x y label"
    by auto
  obtain labels where
    l: "events (fold paint_line ?decos paint_start) = events paint_start @ map Shows labels"
    using paint_shows [OF d] by blast
  have "paint (snd (dominosa_render g)) = events (fold paint_line ?decos paint_start)"
    by (simp add: paint_def dominosa_render_def Let_def)
  then show ?thesis using l by (auto simp: paint_start_def)
qed

lemma order_two:
  "lines_border_decorations (Strokes w False n # Strokes bw True k # others) = (w < bw)"
  by (simp add: lines_border_decorations_def)

lemma order_three:
  "lines_border_decorations (Strokes w False n # Strokes v False m # Strokes bw True k # others)
     = (w < v \<and> w < bw \<and> v < bw)"
  by (auto simp: lines_border_decorations_def)

text \<open>
  C8, as the code has it. Rectangles, Solo, Pattern and Net without wrapping paint in
  the order of the claim: the thin internal lines, then (Solo and Pattern) the thicker
  lines at the block boundaries or at every fifth line, then the border with a wider
  pen than any of them, then the decorations. With wrapping, Net strokes the border
  with the pen of the internal lines. Slant and Light Up stroke the border first and
  the internal lines after it. Dominosa strokes nothing: it only shows its numbers.
\<close>

theorem drawing_order:
  "(\<exists>n labels. paint (snd (rect_render g))
       = [Strokes (1 / 100) False n, Strokes (3 / 2) True 3] @ map Shows labels)
   \<and> lines_border_decorations (paint (snd (rect_render g)))
   \<and> (solo_render gs = Inr (c, frag) \<longrightarrow>
        (\<exists>n m labels. paint frag
           = [Strokes (1 / 10) False n, Strokes 1 False m, Strokes (3 / 2) True 3]
             @ map Shows labels)
        \<and> lines_border_decorations (paint frag))
   \<and> (pattern_render gp = Inr (c, frag) \<longrightarrow>
        (\<exists>n m labels. paint frag
           = [Strokes (1 / 10) False n, Strokes (3 / 4) False m, Strokes (3 / 2) True 3]
             @ map Shows labels)
        \<and> lines_border_decorations (paint frag))
   \<and> (\<exists>n others. paint (snd (net_render gn))
         = [Strokes (1 / 50) False n, Strokes (if wrapping gn then 1 / 50 else 2) True 3] @ others)
   \<and> (\<not> wrapping gn \<longrightarrow> lines_border_decorations (paint (snd (net_render gn))))
   \<and> (\<exists>n others. paint (snd (slant_render g))
         = [Strokes 1 True 3, Strokes (1 / 100) False n] @ others)
   \<and> (\<exists>n others. paint (snd (lightup_render g))
         = [Strokes 1 True 3, Strokes (1 / 50) False n] @ others)
   \<and> (\<exists>labels. paint (snd (dominosa_render g)) = map Shows labels)"
proof -
  have r1: "\<exists>n labels. paint (snd (rect_render g))
       = [Strokes (1 / 100) False n, Strokes (3 / 2) True 3] @ map Shows labels"
    by (rule rect_paint)
  have r2: "lines_border_decorations (paint (snd (rect_render g)))"
  proof -
    from r1 obtain n labels where "paint (snd (rect_render g))
       = [Strokes (1 / 100) False n, Strokes (3 / 2) True 3] @ map Shows labels" by blast
    then show ?thesis by (simp add: order_two)
  qed
  have s: "(\<exists>n m labels. paint frag
           = [Strokes (1 / 10) False n, Strokes 1 False m, Strokes (3 / 2) True 3]
             @ map Shows labels)
        \<and> lines_border_decorations (paint frag)"
    if "solo_render gs = Inr (c, frag)"
  proof -
    from solo_paint [OF that] obtain n m labels where e: "paint frag
           = [Strokes (1 / 10) False n, Strokes 1 False m, Strokes (3 / 2) True 3]
             @ map Shows labels" by blast
    have "lines_border_decorations (paint frag)" by (simp add: e order_three)
    with e show ?thesis by blast
  qed
  have p: "(\<exists>n m labels. paint frag
           = [Strokes (1 / 10) False n, Strokes (3 / 4) False m, Strokes (3 / 2) True 3]
             @ map Shows labels)
        \<and> lines_border_decorations (paint frag)"
    if "pattern_render gp = Inr (c, frag)"
  proof -
    from pattern_paint [OF that] obtain n m labels where e: "paint frag
           = [Strokes (1 / 10) False n, Strokes (3 / 4) False m, Strokes (3 / 2) True 3]
             @ map Shows labels" by blast
    have "lines_border_decorations (paint frag)" by (simp add: e order_three)
    with e show ?thesis by blast
  qed
  have n1: "\<exists>n others. paint (snd (net_render gn))
         = [Strokes (1 / 50) False n, Strokes (if wrapping gn then 1 / 50 else 2) True 3] @ others"
    by (rule net_paint)
  have n2: "lines_border_decorations (paint (snd (net_render gn)))" if "\<not> wrapping gn"
  proof -
    from n1 that obtain n others where "paint (snd (net_render gn))
         = [Strokes (1 / 50) False n, Strokes 2 True 3] @ others" by auto
    then show ?thesis by (simp add: order_two)
  qed
  show ?thesis
    using r1 r2 s p n1 n2 slant_paint [of g] lightup_paint [of g] dominosa_paint [of g]
    by (intro conjI impI) blast+
qed

theorem drawing_order_witness:
  "lines_border_decorations (paint (snd (rect_render \<lparr>width = 2, height = 1, cells = [1, 2]\<rparr>)))
   \<and> (case solo_render \<lparr>cols = 1, rows = 2, scells = [- 1, - 1, 3, - 1]\<rparr> of
        Inl e \<Rightarrow> False
      | Inr (c, frag) \<Rightarrow> lines_border_decorations (paint frag))
   \<and> (case pattern_render \<lparr>pwidth = 2, pheight = 1, rowdata = [[''1'', ''2''], [''3''], ['''']]\<rparr> of
        Inl e \<Rightarrow> False
      | Inr (c, frag) \<Rightarrow> lines_border_decorations (paint frag))
   \<and> \<not> wrapping \<lparr>width = 1, height = 1, cells = [1], wrapping = False,
                   hbarriers = [], vbarriers = []\<rparr>
   \<and> lines_border_decorations (paint (snd (net_render
         \<lparr>width = 1, height = 1, cells = [1], wrapping = False,
          hbarriers = [], vbarriers = []\<rparr>)))"
proof -
  let ?gs = "\<lparr>cols = 1, rows = 2, scells = [- 1, - 1, 3, - 1]\<rparr>"
  let ?gp = "\<lparr>pwidth = 2, pheight = 1, rowdata = [[''1'', ''2''], [''3''], ['''']]\<rparr>"
  let ?gn = "\<lparr>width = 1, height = 1, cells = [1], wrapping = False,
          hbarriers = [], vbarriers = []\<rparr>"
  have "\<exists>c frag. solo_render ?gs = Inr (c, frag)"
    by (simp add: solo_render_def xrange3_def Let_def solo_number_def chr_def ord_def upto.simps)
  then obtain c1 f1 where s: "solo_render ?gs = Inr (c1, f1)" by blast
  have "\<exists>c frag. pattern_render ?gp = Inr (c, frag)"
    by (simp add: pattern_render_def Let_def reduce_max_def slice_from_def slice_to_def
        slice_index_def)
  then obtain c2 f2 where p: "pattern_render ?gp = Inr (c2, f2)" by blast
  have a: "lines_border_decorations (paint (snd (rect_render \<lparr>width = 2, height = 1, cells = [1, 2]\<rparr>)))"
    using drawing_order [where g = "\<lparr>width = 2, height = 1, cells = [1, 2]\<rparr>"] by blast
  have b: "lines_border_decorations (paint f1)"
    using drawing_order [where gs = ?gs and c = c1 and frag = f1] s by blast
  have c: "lines_border_decorations (paint f2)"
    using drawing_order [where gp = ?gp and c = c2 and frag = f2] p by blast
  have w: "\<not> wrapping ?gn" by simp
  have d: "lines_border_decorations (paint (snd (net_render ?gn)))"
    using drawing_order [where gn = ?gn] w by blast
  show ?thesis using a b c w d by (simp add: s p)
qed

text \<open>
  C8 as stated fails: for the Slant descriptor \<open>2x1:a1d\<close> the first thing painted
  is the closed border, with the pen of width 1; the internal line follows.
\<close>

theorem slant_border_comes_first:
  "slant_format ''2x1:a1d''
     = Some (Inr (slant_render \<lparr>width = 2, height = 1, cells = [- 1, 1, - 1, - 1, - 1, - 1]\<rparr>))
   \<and> paint (snd (slant_render \<lparr>width = 2, height = 1, cells = [- 1, 1, - 1, - 1, - 1, - 1]\<rparr>))
     = [Strokes 1 True 3, Strokes (1 / 100) False 1, Fills, Strokes (1 / 100) False 1, Shows ''1'']
   \<and> \<not> lines_border_decorations
         [Strokes 1 True 3, Strokes (1 / 100) False 1, Fills, Strokes (1 / 100) False 1, Shows ''1'']"
proof -
  have a: "slant_format ''2x1:a1d''
     = Some (Inr (slant_render \<lparr>width = 2, height = 1, cells = [- 1, 1, - 1, - 1, - 1, - 1]\<rparr>))"
    by (simp add: slant_format_def slant_decode_def slant_seed_body_def eval_defs eval_nat_numeral)
  have b: "paint (snd (slant_render \<lparr>width = 2, height = 1, cells = [- 1, 1, - 1, - 1, - 1, - 1]\<rparr>))
     = [Strokes 1 True 3, Strokes (1 / 100) False 1, Fills, Strokes (1 / 100) False 1, Shows ''1'']"
    by (simp add: paint_def slant_render_def Let_def paint_start_def slant_clue_def
        paint_line_def vline_def hline_def boxpath_def setfont_def ctshow_def
        show_int_def show_nat.simps char_of_def bit_iff_odd upto_rec1)
  have c: "\<not> lines_border_decorations
         [Strokes 1 True 3, Strokes (1 / 100) False 1, Fills, Strokes (1 / 100) False 1, Shows ''1'']"
    by (simp add: lines_border_decorations_def)
  show ?thesis using a b c by simp
qed

end
